theory Spec2Isabelle
  imports Complex_Main "HOL-Library.Word" "HOL-Library.Sublist"
begin

section \<open>JavaScript strings\<close>

text \<open>
  A JavaScript string is a sequence of UTF-16 code units, and \<open>.length\<close> counts code
  units. Program literals are embedded with \<open>lit\<close>; every literal of \<open>main.js\<close> that
  the model keeps lies in Latin-1, where the code unit is the character code.
\<close>

type_synonym jsstring = "16 word list"

definition lit :: "string \<Rightarrow> jsstring" where
  "lit s = map (\<lambda>c. word_of_nat (of_char c)) s"

text \<open>
  \<open>String.prototype.trim\<close> removes the WhiteSpace and LineTerminator code points of
  ECMAScript from both ends; all of them are single code units.
\<close>

definition is_whitespace :: "16 word \<Rightarrow> bool" where
  "is_whitespace c =
     (c \<in> set [0x0009, 0x000A, 0x000B, 0x000C, 0x000D, 0x0020, 0x00A0, 0x1680,
                0x2028, 0x2029, 0x202F, 0x205F, 0x3000, 0xFEFF]
      \<or> (0x2000 \<le> c \<and> c \<le> 0x200A))"

definition trim :: "jsstring \<Rightarrow> jsstring" where
  "trim s = rev (dropWhile is_whitespace (rev (dropWhile is_whitespace s)))"

text \<open>\<open>value || null\<close> on a string: the empty string is falsy.\<close>

definition or_null :: "jsstring \<Rightarrow> jsstring option" where
  "or_null s = (if s = [] then None else Some s)"

text \<open>
  \<open>x?.field || null\<close> and \<open>x.field || fallback\<close> on a member that may be absent:
  \<open>None\<close> stands for an absent (or null) member.
\<close>

definition opt_or_null :: "jsstring option \<Rightarrow> jsstring option" where
  "opt_or_null v = (case v of None \<Rightarrow> None | Some s \<Rightarrow> or_null s)"

definition or_else :: "jsstring option \<Rightarrow> jsstring \<Rightarrow> jsstring" where
  "or_else v d = (case opt_or_null v of None \<Rightarrow> d | Some s \<Rightarrow> s)"

text \<open>\<open>s.split(',')\<close>: the empty string splits into one empty piece.\<close>

fun split_comma :: "jsstring \<Rightarrow> jsstring list" where
  "split_comma [] = [[]]"
| "split_comma (c # cs) =
     (if c = 0x2C then [] # split_comma cs
      else (case split_comma cs of
              [] \<Rightarrow> [[c]]
            | p # ps \<Rightarrow> (c # p) # ps))"

section \<open>Errors\<close>

text \<open>
  Every \<open>throw\<close> of the source and every exception of the platform the handlers can
  meet is a value: \<open>Error m\<close> is \<open>new Error(m)\<close>, \<open>FetchFailure\<close> is a rejected
  \<open>fetch\<close>, \<open>SyntaxError\<close> a body that is not JSON, \<open>TypeError\<close> a member read on
  \<open>null\<close> (or spreading \<open>null\<close>), \<open>RangeError\<close> is \<open>toISOString\<close> on an invalid date.
\<close>

datatype js_error = Error jsstring | TypeError | RangeError | SyntaxError | FetchFailure

section \<open>Data exchanged with the server\<close>

record image =
  image_id :: nat
  image_url :: jsstring

record js_file =
  file_name :: jsstring
  file_type :: jsstring

text \<open>The members of \<open>result.suggested_category\<close> that the client reads.\<close>

record category =
  cat_name :: "jsstring option"
  cat_path :: "jsstring option"
  full_path :: jsstring

text \<open>
  The answer of \<open>/categories/analyze\<close>. \<open>confidence\<close> is \<open>None\<close> when the member is
  absent (it then compares as NaN); a number is the rational value of the double.
  \<open>alternatives\<close> holds the \<open>name\<close> of each alternative (absent is the empty list).
\<close>

record analysis =
  suggested_category :: "category option"
  confidence :: "rat option"
  detected_gender :: "jsstring option"
  alternatives :: "jsstring list"
  message :: "jsstring option"

record listing =
  listing_id :: nat

text \<open>
  \<open>scheduled_at\<close> is \<open>new Date(v).toISOString()\<close>: \<open>ISOString t\<close> is the ISO 8601
  text of the time value \<open>t\<close> (milliseconds since the epoch). \<open>price\<close> is
  \<open>parseFloat\<close> applied to the text of the field.
\<close>

datatype iso_timestamp = ISOString int

datatype js_float = ParseFloat jsstring

record payload =
  title :: jsstring
  description :: jsstring
  price :: js_float
  condition :: "jsstring option"
  category :: "jsstring option"
  category_path :: "jsstring option"
  location :: "jsstring option"
  brand :: "jsstring option"
  size_value :: "jsstring option"
  colors :: "jsstring list option"
  post_to_leboncoin :: bool
  post_to_vinted :: bool
  image_ids :: "nat list"
  scheduled_at :: "iso_timestamp option"

section \<open>HTTP\<close>

datatype http_method = GET | POST | PUT | DELETE

datatype endpoint =
  Listings
| ListingPublish nat
| CategoriesAnalyze
| UploadsImages

datatype request_body =
  NoBody
| CreateListingJson payload
| AnalyzeJson jsstring jsstring
| FormData "js_file list"

text \<open>
  What \<open>response.json()\<close> yields: \<open>None\<close> when the body is not JSON (the promise
  rejects), \<open>Null\<close> for the JSON value null, and otherwise an object, of which the
  client reads either \<open>detail\<close> (error responses; \<open>None\<close> when absent) or the data.
\<close>

datatype 'a json = Null | Object "jsstring option" 'a

record 'a response =
  status :: nat
  json :: "'a json option"

definition ok :: "'a response \<Rightarrow> bool" where
  "ok r = (200 \<le> status r \<and> status r \<le> 299)"

datatype 'a fetch_outcome = Rejected | Resolved "'a response"

section \<open>Observable effects and application state\<close>

datatype confidence_class = ConfidenceHigh | ConfidenceMedium | ConfidenceLow

text \<open>
  The content of \<open>#vinted-category-preview\<close>. \<open>Detected\<close> carries the path, the
  confidence class, the detected gender when shown, and the alternatives when shown
  (the printed percentage, a floating-point product, is left out).
\<close>

datatype preview =
  Hint
| Loading
| Detected jsstring confidence_class "jsstring option" "jsstring list"
| Warning jsstring
| AnalysisFailed

datatype toast_type = ToastSuccess | ToastError | ToastWarning | ToastInfo

datatype toast_text = Text jsstring | EngineMessage js_error | ImagesUploaded nat

datatype effect =
  Fetch http_method endpoint "jsstring option" request_body
| LocalStorageRemoveToken
| ShowPage jsstring
| Toast toast_text toast_type
| SetPreview preview
| PreventDefault
| FormReset
| RenderImagePreviews "image list"
| RenderListings "listing list"
| RenderDashboard "listing list"
| Uncaught js_error

text \<open>
  \<open>api.token\<close> and the fields of \<open>app\<close>. \<open>detectedCategory\<close> is not set by the
  constructor: \<open>None\<close> is both \<open>undefined\<close> and \<open>null\<close>. \<open>listings\<close> is \<open>None\<close>
  when a null answer has been stored in it.
\<close>

record app_state =
  token :: "jsstring option"
  currentPage :: jsstring
  listings :: "listing list option"
  uploadedImages :: "image list"
  detectedCategory :: "category option"

text \<open>\<open>error.message\<close> as a toast text.\<close>

definition error_message :: "js_error \<Rightarrow> toast_text" where
  "error_message e = (case e of Error m \<Rightarrow> Text m | _ \<Rightarrow> EngineMessage e)"

definition showToast :: "toast_text \<Rightarrow> toast_type \<Rightarrow> effect list" where
  "showToast m t = [Toast m t]"

definition clearToken :: "app_state \<Rightarrow> effect list \<times> app_state" where
  "clearToken st = ([LocalStorageRemoveToken], st\<lparr>token := None\<rparr>)"

section \<open>ApiClient\<close>

definition session_expired :: jsstring where
  "session_expired = lit (''Session expir'' @ [CHR 0xE9] @ ''e'')"

definition generic_error :: jsstring where
  "generic_error = lit ''Une erreur est survenue''"

text \<open>\<open>if (this.token) headers['Authorization'] = `Bearer ${this.token}`\<close>.\<close>

definition authorization :: "app_state \<Rightarrow> jsstring option" where
  "authorization st =
     (case opt_or_null (token st) of
        None \<Rightarrow> None
      | Some t \<Rightarrow> Some (lit ''Bearer '' @ t))"

text \<open>
  \<open>loadDashboard\<close> and \<open>loadListings\<close> up to their \<open>await\<close>: each calls
  \<open>api.getListings()\<close>, whose \<open>request('/listings/')\<close> makes its \<open>fetch\<close> at once.
  What they do with the answer is \<open>loadDashboard_resumed\<close> and
  \<open>loadListings_resumed\<close> below.
\<close>

definition loadDashboard :: "app_state \<Rightarrow> effect list" where
  "loadDashboard st = [Fetch GET Listings (authorization st) NoBody]"

definition loadListings :: "app_state \<Rightarrow> effect list" where
  "loadListings st = [Fetch GET Listings (authorization st) NoBody]"

text \<open>
  \<open>showPage\<close>: the changes to the document are one effect; then the load of the
  dashboard or of the listings page is started, not awaited; then \<open>currentPage\<close>
  is set.
\<close>

definition showPage :: "jsstring \<Rightarrow> app_state \<Rightarrow> effect list \<times> app_state" where
  "showPage page st =
     ([ShowPage page] @
      (if page = lit ''dashboard'' then loadDashboard st
       else if page = lit ''listings'' then loadListings st
       else []),
      st\<lparr>currentPage := page\<rparr>)"

text \<open>
  \<open>ApiClient.request\<close> from the answer of its \<open>fetch\<close> on. The result is the thrown
  error or the returned data (\<open>None\<close> is null).
\<close>

definition request_resumed ::
  "'a fetch_outcome \<Rightarrow> app_state \<Rightarrow> effect list \<times> app_state \<times> (js_error + 'a option)"
  where
  "request_resumed out st =
     (case out of
        Rejected \<Rightarrow> ([], st, Inl FetchFailure)
      | Resolved r \<Rightarrow>
          if status r = 401 then
            (let (e1, st1) = clearToken st;
                 (e2, st2) = showPage (lit ''login'') st1
             in (e1 @ e2, st2, Inl (Error session_expired)))
          else if \<not> ok r then
            ([], st,
             Inl (case json r of
                    None \<Rightarrow> Error generic_error
                  | Some Null \<Rightarrow> TypeError
                  | Some (Object d x) \<Rightarrow> Error (or_else d generic_error)))
          else if status r = 204 then ([], st, Inr None)
          else
            ([], st,
             case json r of
               None \<Rightarrow> Inl SyntaxError
             | Some Null \<Rightarrow> Inr None
             | Some (Object d x) \<Rightarrow> Inr (Some x)))"

text \<open>
  \<open>ApiClient.request\<close>: the one \<open>fetch\<close> it makes, then the handling of the answer
  of the network, which is an argument.
\<close>

definition request ::
  "http_method \<Rightarrow> endpoint \<Rightarrow> request_body \<Rightarrow> 'a fetch_outcome \<Rightarrow> app_state
   \<Rightarrow> effect list \<times> app_state \<times> (js_error + 'a option)" where
  "request m ep b out st =
     (let (es, st1, res) = request_resumed out st
      in (Fetch m ep (authorization st) b # es, st1, res))"

definition createListing ::
  "payload \<Rightarrow> listing fetch_outcome \<Rightarrow> app_state
   \<Rightarrow> effect list \<times> app_state \<times> (js_error + listing option)" where
  "createListing d out st = request POST Listings (CreateListingJson d) out st"

definition publishListing ::
  "nat \<Rightarrow> unit fetch_outcome \<Rightarrow> app_state
   \<Rightarrow> effect list \<times> app_state \<times> (js_error + unit option)" where
  "publishListing i out st = request POST (ListingPublish i) NoBody out st"

definition analyzeCategory ::
  "jsstring \<Rightarrow> jsstring \<Rightarrow> analysis fetch_outcome \<Rightarrow> app_state
   \<Rightarrow> effect list \<times> app_state \<times> (js_error + analysis option)" where
  "analyzeCategory t d out st = request POST CategoriesAnalyze (AnalyzeJson t d) out st"

definition upload_error :: jsstring where
  "upload_error = lit ''Erreur lors de l'' @ [0x27] @ lit ''upload''"

text \<open>
  \<open>uploadImages\<close> does not go through \<open>request\<close>: it always sends the header
  \<open>`Bearer ${this.token}`\<close> (a null token prints as \<open>null\<close>) and has no 401 branch.
\<close>

definition uploadImages ::
  "js_file list \<Rightarrow> image list fetch_outcome \<Rightarrow> app_state
   \<Rightarrow> effect list \<times> app_state \<times> (js_error + image list option)" where
  "uploadImages files out st =
     (let bearer = lit ''Bearer '' @ (case token st of None \<Rightarrow> lit ''null'' | Some t \<Rightarrow> t);
          sent = [Fetch POST UploadsImages (Some bearer) (FormData files)]
      in case out of
           Rejected \<Rightarrow> (sent, st, Inl FetchFailure)
         | Resolved r \<Rightarrow>
             if \<not> ok r then (sent, st, Inl (Error upload_error))
             else
               (sent, st,
                case json r of
                  None \<Rightarrow> Inl SyntaxError
                | Some Null \<Rightarrow> Inr None
                | Some (Object d x) \<Rightarrow> Inr (Some x)))"

section \<open>Page loads\<close>

text \<open>
  \<open>loadListings\<close> and \<open>loadDashboard\<close> from the answer to their request on: the
  answer is stored in \<open>this.listings\<close> and rendered (the cards and the counts are one
  effect each); a thrown request, and the \<open>length\<close> read on a null answer, end in the
  \<open>catch\<close> block.
\<close>

definition loadListings_resumed ::
  "listing list fetch_outcome \<Rightarrow> app_state \<Rightarrow> effect list \<times> app_state" where
  "loadListings_resumed out st =
     (let (es, st1, res) = request_resumed out st
      in case res of
           Inl err \<Rightarrow> (es @ showToast (error_message err) ToastError, st1)
         | Inr None \<Rightarrow>
             (es @ showToast (error_message TypeError) ToastError, st1\<lparr>listings := None\<rparr>)
         | Inr (Some ls) \<Rightarrow> (es @ [RenderListings ls], st1\<lparr>listings := Some ls\<rparr>))"

definition loadDashboard_resumed ::
  "listing list fetch_outcome \<Rightarrow> app_state \<Rightarrow> effect list \<times> app_state" where
  "loadDashboard_resumed out st =
     (let (es, st1, res) = request_resumed out st
      in case res of
           Inl err \<Rightarrow> (es @ showToast (error_message err) ToastError, st1)
         | Inr None \<Rightarrow>
             (es @ showToast (error_message TypeError) ToastError, st1\<lparr>listings := None\<rparr>)
         | Inr (Some ls) \<Rightarrow> (es @ [RenderDashboard ls], st1\<lparr>listings := Some ls\<rparr>))"

section \<open>Category preview\<close>

text \<open>The values of the form's controls when a handler reads them.\<close>

record form =
  listing_title :: jsstring
  listing_description :: jsstring
  listing_price :: jsstring
  listing_condition :: jsstring
  listing_location :: jsstring
  listing_brand :: jsstring
  listing_size :: jsstring
  listing_colors :: jsstring
  listing_schedule :: jsstring
  post_leboncoin :: bool
  post_vinted :: bool

text \<open>
  The literals \<open>0.7\<close> and \<open>0.4\<close> of the source denote the nearest doubles; these are
  their exact values, so that \<open>js_ge\<close> agrees with \<open>>=\<close> on every finite double.
\<close>

definition js_0_7 :: rat where
  "js_0_7 = 3152519739159347 / 4503599627370496"

definition js_0_4 :: rat where
  "js_0_4 = 3602879701896397 / 9007199254740992"

text \<open>\<open>confidence >= k\<close>: false when the confidence is not a number.\<close>

definition js_ge :: "rat option \<Rightarrow> rat \<Rightarrow> bool" where
  "js_ge c k = (case c of None \<Rightarrow> False | Some x \<Rightarrow> k \<le> x)"

definition confidenceClass :: "rat option \<Rightarrow> confidence_class" where
  "confidenceClass c =
     (if js_ge c js_0_7 then ConfidenceHigh
      else if js_ge c js_0_4 then ConfidenceMedium
      else ConfidenceLow)"

definition no_category_message :: jsstring where
  "no_category_message =
     lit (''Impossible de d'' @ [CHR 0xE9] @ ''tecter la cat'' @ [CHR 0xE9] @ ''gorie'')"

text \<open>
  \<open>analyzeVintedCategory\<close>. A thrown \<open>analyzeCategory\<close> and a null result (whose
  member read throws) both end in the \<open>catch\<close> block.
\<close>

definition analyzeVintedCategory ::
  "form \<Rightarrow> analysis fetch_outcome \<Rightarrow> app_state \<Rightarrow> effect list \<times> app_state" where
  "analyzeVintedCategory f out st =
     (let ttl = trim (listing_title f);
          dsc = trim (listing_description f)
      in if length ttl < 3 then ([SetPreview Hint], st)
         else
           (let (es, st1, res) = analyzeCategory ttl dsc out st;
                failed = ([SetPreview Loading] @ es @ [SetPreview AnalysisFailed],
                          st1\<lparr>detectedCategory := None\<rparr>)
            in case res of
                 Inl err \<Rightarrow> failed
               | Inr None \<Rightarrow> failed
               | Inr (Some result) \<Rightarrow>
                   (case suggested_category result of
                      Some cat \<Rightarrow>
                        ([SetPreview Loading] @ es @
                         [SetPreview
                            (Detected (full_path cat)
                               (confidenceClass (confidence result))
                               (opt_or_null (detected_gender result))
                               (alternatives result))],
                         st1\<lparr>detectedCategory := Some cat\<rparr>)
                    | None \<Rightarrow>
                        ([SetPreview Loading] @ es @
                         [SetPreview (Warning (or_else (message result) no_category_message))],
                         st1\<lparr>detectedCategory := None\<rparr>))))"

section \<open>Debounced category detection\<close>

text \<open>
  The timers of \<open>setupEventListeners\<close> on a millisecond clock. \<open>pending\<close> holds the
  timers set and neither fired nor cleared, as (id, due time); a timer runs its
  callback at its due time; \<open>analyses\<close> lists the times at which the callback called
  \<open>analyzeVintedCategory\<close>. \<open>categoryDebounceTimer\<close> is the closure variable.
\<close>

record debounce_state =
  categoryDebounceTimer :: "nat option"
  pending :: "(nat \<times> nat) list"
  next_id :: nat
  analyses :: "nat list"

definition clearTimeout :: "nat option \<Rightarrow> debounce_state \<Rightarrow> debounce_state" where
  "clearTimeout h s = s\<lparr>pending := filter (\<lambda>(i, due). Some i \<noteq> h) (pending s)\<rparr>"

definition setTimeout :: "nat \<Rightarrow> nat \<Rightarrow> debounce_state \<Rightarrow> nat \<times> debounce_state" where
  "setTimeout delay now s =
     (next_id s,
      s\<lparr>pending := pending s @ [(next_id s, now + delay)], next_id := Suc (next_id s)\<rparr>)"

definition triggerCategoryAnalysis :: "nat \<Rightarrow> debounce_state \<Rightarrow> debounce_state" where
  "triggerCategoryAnalysis now s =
     (let s1 = clearTimeout (categoryDebounceTimer s) s;
          (h, s2) = setTimeout 500 now s1
      in s2\<lparr>categoryDebounceTimer := Some h\<rparr>)"

text \<open>The event loop reaching time \<open>now\<close>: every timer due by then has run, earliest first.\<close>

definition run_timers :: "nat \<Rightarrow> debounce_state \<Rightarrow> debounce_state" where
  "run_timers now s =
     s\<lparr>pending := filter (\<lambda>(i, due). \<not> due \<le> now) (pending s),
       analyses := analyses s @ sort (map snd (filter (\<lambda>(i, due). due \<le> now) (pending s)))\<rparr>"

text \<open>An \<open>input\<close> event on the title or the description field at time \<open>t\<close>.\<close>

definition input_event :: "nat \<Rightarrow> debounce_state \<Rightarrow> debounce_state" where
  "input_event t s = triggerCategoryAnalysis t (run_timers t s)"

fun input_events :: "nat list \<Rightarrow> debounce_state \<Rightarrow> debounce_state" where
  "input_events [] s = s"
| "input_events (t # ts) s = input_events ts (input_event t s)"

section \<open>Status labels\<close>

text \<open>The object literal of \<open>translateStatus\<close>, in source order.\<close>

definition translation_table :: "(jsstring \<times> jsstring) list" where
  "translation_table =
     [(lit ''draft'', lit ''Brouillon''),
      (lit ''pending'', lit ''En attente''),
      (lit ''scheduled'', lit (''Planifi'' @ [CHR 0xE9])),
      (lit ''publishing'', lit ''Publication...''),
      (lit ''published'', lit (''Publi'' @ [CHR 0xE9])),
      (lit ''failed'', lit ([CHR 0xC9] @ ''chec'')),
      (lit ''deleted'', lit (''Supprim'' @ [CHR 0xE9]))]"

text \<open>
  A property read on an object literal that has no such own property goes to
  \<open>Object.prototype\<close>, whose members are functions (or, for \<open>__proto__\<close>, an object):
  truthy values that are not strings.
\<close>

definition object_prototype :: "jsstring list" where
  "object_prototype =
     map lit [''constructor'', ''hasOwnProperty'', ''isPrototypeOf'',
              ''propertyIsEnumerable'', ''toLocaleString'', ''toString'', ''valueOf'',
              ''__proto__'', ''__defineGetter__'', ''__defineSetter__'',
              ''__lookupGetter__'', ''__lookupSetter__'']"

datatype status_label = Str jsstring | Inherited jsstring

text \<open>\<open>translations[status] || status\<close>.\<close>

definition translateStatus :: "jsstring \<Rightarrow> status_label" where
  "translateStatus s =
     (case map_of translation_table s of
        Some l \<Rightarrow> if l \<noteq> [] then Str l else Str s
      | None \<Rightarrow> if s \<in> set object_prototype then Inherited s else Str s)"

section \<open>Image upload\<close>

definition valid_image_types :: "jsstring list" where
  "valid_image_types = map lit [''image/jpeg'', ''image/png'', ''image/webp'', ''image/gif'']"

definition no_valid_file :: jsstring where
  "no_valid_file = lit ''Aucun fichier image valide''"

text \<open>
  \<open>handleImageUpload\<close>. A null answer makes the spread in \<open>push(...uploaded)\<close> throw,
  which the \<open>catch\<close> block reports like any other error.
\<close>

definition handleImageUpload ::
  "js_file list \<Rightarrow> image list fetch_outcome \<Rightarrow> app_state \<Rightarrow> effect list \<times> app_state" where
  "handleImageUpload files out st =
     (let validFiles = filter (\<lambda>f. file_type f \<in> set valid_image_types) files
      in if length validFiles = 0 then (showToast (Text no_valid_file) ToastError, st)
         else
           (let (es, st1, res) = uploadImages validFiles out st
            in case res of
                 Inl err \<Rightarrow> (es @ showToast (error_message err) ToastError, st1)
               | Inr None \<Rightarrow> (es @ showToast (error_message TypeError) ToastError, st1)
               | Inr (Some uploaded) \<Rightarrow>
                   (let st2 = st1\<lparr>uploadedImages := uploadedImages st1 @ uploaded\<rparr>
                    in (es @ [RenderImagePreviews (uploadedImages st2)] @
                        showToast (ImagesUploaded (length uploaded)) ToastSuccess,
                        st2))))"

text \<open>\<open>removeImage\<close>: \<open>splice(index, 1)\<close> with the index of a rendered preview.\<close>

definition removeImage :: "nat \<Rightarrow> app_state \<Rightarrow> effect list \<times> app_state" where
  "removeImage index st =
     (let st1 = st\<lparr>uploadedImages :=
                      take index (uploadedImages st) @ drop (Suc index) (uploadedImages st)\<rparr>
      in ([RenderImagePreviews (uploadedImages st1)], st1))"

section \<open>Creating a listing\<close>

text \<open>\<open>colorsValue ? colorsValue.split(',').map(c => c.trim()).filter(c => c) : null\<close>.\<close>

definition colors_of :: "jsstring \<Rightarrow> jsstring list option" where
  "colors_of v =
     (if v = [] then None
      else Some (filter (\<lambda>c. c \<noteq> []) (map trim (split_comma v))))"

text \<open>The object literal \<open>data\<close>, before \<open>scheduled_at\<close> is added.\<close>

definition listing_data :: "form \<Rightarrow> app_state \<Rightarrow> payload" where
  "listing_data f st =
     \<lparr>title = listing_title f,
      description = listing_description f,
      price = ParseFloat (listing_price f),
      condition = or_null (listing_condition f),
      category = (case detectedCategory st of None \<Rightarrow> None | Some c \<Rightarrow> opt_or_null (cat_name c)),
      category_path = (case detectedCategory st of None \<Rightarrow> None | Some c \<Rightarrow> opt_or_null (cat_path c)),
      location = or_null (listing_location f),
      brand = or_null (listing_brand f),
      size_value = or_null (listing_size f),
      colors = colors_of (listing_colors f),
      post_to_leboncoin = post_leboncoin f,
      post_to_vinted = post_vinted f,
      image_ids = map image_id (uploadedImages st),
      scheduled_at = None\<rparr>"

text \<open>
  \<open>if (scheduleValue) data.scheduled_at = new Date(scheduleValue).toISOString()\<close>.
  \<open>parse\<close> is the platform's date parser: the time value of \<open>new Date(v)\<close>, or
  \<open>None\<close> for an invalid date, on which \<open>toISOString\<close> throws a RangeError.
\<close>

definition with_schedule ::
  "(jsstring \<Rightarrow> int option) \<Rightarrow> jsstring \<Rightarrow> payload \<Rightarrow> js_error + payload" where
  "with_schedule parse scheduleValue d =
     (if scheduleValue \<noteq> [] then
        (case parse scheduleValue of
           None \<Rightarrow> Inl RangeError
         | Some t \<Rightarrow> Inr (d\<lparr>scheduled_at := Some (ISOString t)\<rparr>))
      else Inr d)"

definition vinted_warning :: jsstring where
  "vinted_warning =
     lit (''Impossible de d'' @ [CHR 0xE9] @ ''tecter la cat'' @ [CHR 0xE9]
          @ ''gorie Vinted. Veuillez pr'' @ [CHR 0xE9] @ ''ciser le titre.'')"

definition listing_created :: jsstring where
  "listing_created =
     lit (''Annonce cr'' @ [CHR 0xE9, CHR 0xE9] @ ''e avec succ'' @ [CHR 0xE8] @ ''s'')"

definition publication_started :: jsstring where
  "publication_started = lit (''Publication lanc'' @ [CHR 0xE9] @ ''e'')"

text \<open>
  \<open>if (!scheduleValue) { await api.publishListing(listing.id); showToast(...) }\<close>:
  \<open>Inl\<close> is an exception on the way (reading \<open>id\<close> of a null listing included).
\<close>

definition publish_unless_scheduled ::
  "jsstring \<Rightarrow> listing option \<Rightarrow> unit fetch_outcome \<Rightarrow> app_state
   \<Rightarrow> (effect list \<times> app_state \<times> js_error) + (effect list \<times> app_state)" where
  "publish_unless_scheduled scheduleValue created out st =
     (if scheduleValue = [] then
        (case created of
           None \<Rightarrow> Inl ([], st, TypeError)
         | Some l \<Rightarrow>
             (let (es, st1, res) = publishListing (listing_id l) out st
              in case res of
                   Inl err \<Rightarrow> Inl (es, st1, err)
                 | Inr r \<Rightarrow> Inr (es @ showToast (Text publication_started) ToastSuccess, st1)))
      else Inr ([], st))"

text \<open>
  \<open>handleCreateListing\<close>. The answers of the network to the create request and to
  the publish request are arguments, read only if the request is made. An invalid
  schedule value throws before the \<open>try\<close> block: the exception is not caught.
\<close>

definition handleCreateListing ::
  "(jsstring \<Rightarrow> int option) \<Rightarrow> form \<Rightarrow> listing fetch_outcome \<Rightarrow> unit fetch_outcome
   \<Rightarrow> app_state \<Rightarrow> effect list \<times> app_state" where
  "handleCreateListing parse f create_out publish_out st =
     (case with_schedule parse (listing_schedule f) (listing_data f st) of
        Inl err \<Rightarrow> ([PreventDefault, Uncaught err], st)
      | Inr d \<Rightarrow>
          if post_to_vinted d \<and> detectedCategory st = None then
            ([PreventDefault] @ showToast (Text vinted_warning) ToastWarning, st)
          else
            (let (e1, st1, res) = createListing d create_out st
             in case res of
                  Inl err \<Rightarrow>
                    ([PreventDefault] @ e1 @ showToast (error_message err) ToastError, st1)
                | Inr created \<Rightarrow>
                    (let e2 = showToast (Text listing_created) ToastSuccess
                     in case publish_unless_scheduled (listing_schedule f) created
                               publish_out st1 of
                          Inl (e3, st2, err) \<Rightarrow>
                            ([PreventDefault] @ e1 @ e2 @ e3 @
                             showToast (error_message err) ToastError, st2)
                        | Inr (e3, st2) \<Rightarrow>
                            (let st3 = st2\<lparr>uploadedImages := [], detectedCategory := None\<rparr>;
                                 (e4, st4) = showPage (lit ''listings'') st3
                             in ([PreventDefault] @ e1 @ e2 @ e3 @
                                 [FormReset, RenderImagePreviews (uploadedImages st3),
                                  SetPreview Hint] @ e4,
                                 st4)))))"

text \<open>The requests a trace of effects contains.\<close>

fun is_create_request :: "effect \<Rightarrow> bool" where
  "is_create_request (Fetch m Listings a (CreateListingJson d)) = (m = POST)"
| "is_create_request e = False"

fun is_publish_request :: "effect \<Rightarrow> bool" where
  "is_publish_request (Fetch m (ListingPublish i) a b) = (m = POST)"
| "is_publish_request e = False"

fun is_analyze_request :: "effect \<Rightarrow> bool" where
  "is_analyze_request (Fetch m CategoriesAnalyze a b) = (m = POST)"
| "is_analyze_request e = False"

fun is_fetch :: "effect \<Rightarrow> bool" where
  "is_fetch (Fetch m ep a b) = True"
| "is_fetch e = False"

section \<open>The handlers as a transition system\<close>

text \<open>
  The handlers that read or write \<open>uploadedImages\<close> and \<open>detectedCategory\<close>, and
  the resumptions of the page loads, as events carrying what the user supplied and
  what the network answered.
\<close>

datatype event =
  ImageUpload "js_file list" "image list fetch_outcome"
| RemoveImage nat
| CategoryAnalysis form "analysis fetch_outcome"
| CreateListingSubmit "jsstring \<Rightarrow> int option" form "listing fetch_outcome" "unit fetch_outcome"
| ListingsAnswer "listing list fetch_outcome"
| DashboardAnswer "listing list fetch_outcome"

fun handle :: "event \<Rightarrow> app_state \<Rightarrow> effect list \<times> app_state" where
  "handle (ImageUpload files out) st = handleImageUpload files out st"
| "handle (RemoveImage index) st = removeImage index st"
| "handle (CategoryAnalysis f out) st = analyzeVintedCategory f out st"
| "handle (CreateListingSubmit parse f co po) st = handleCreateListing parse f co po st"
| "handle (ListingsAnswer out) st = loadListings_resumed out st"
| "handle (DashboardAnswer out) st = loadDashboard_resumed out st"

fun run :: "event list \<Rightarrow> app_state \<Rightarrow> effect list \<times> app_state" where
  "run [] st = ([], st)"
| "run (e # es) st =
     (let (x, st1) = handle e st;
          (y, st2) = run es st1
      in (x @ y, st2))"

text \<open>The state after \<open>new ApiClient()\<close> and \<open>new App()\<close>, with the token of localStorage.\<close>

definition initial_state :: "jsstring option \<Rightarrow> app_state" where
  "initial_state stored =
     \<lparr>token = stored, currentPage = lit ''login'', listings = Some [],
      uploadedImages = [], detectedCategory = None\<rparr>"

text \<open>
  The images an upload event brings: the answer of the server to an upload request,
  when at least one of the files has an accepted image type and the answer is an
  array.
\<close>

fun answered :: "event \<Rightarrow> image list" where
  "answered (ImageUpload files (Resolved r)) =
     (if filter (\<lambda>f. file_type f \<in> set valid_image_types) files \<noteq> [] \<and> ok r
      then (case json r of Some (Object d imgs) \<Rightarrow> imgs | _ \<Rightarrow> [])
      else [])"
| "answered e = []"

text \<open>The \<open>image_ids\<close> of a create request.\<close>

fun sent_image_ids :: "effect \<Rightarrow> nat list" where
  "sent_image_ids (Fetch m ep a (CreateListingJson d)) = image_ids d"
| "sent_image_ids e = []"

section \<open>Sample inputs\<close>

text \<open>Concrete values on which the theorems below are exercised.\<close>

definition sample_state :: app_state where
  "sample_state =
     \<lparr>token = Some (lit ''tok''), currentPage = lit ''create'', listings = Some [],
      uploadedImages = [], detectedCategory = None\<rparr>"

definition sample_category :: category where
  "sample_category =
     \<lparr>cat_name = Some (lit ''Vestes''), cat_path = Some (lit ''femmes/vestes''),
      full_path = lit ''Femmes > Vestes''\<rparr>"

definition sample_form :: form where
  "sample_form =
     \<lparr>listing_title = lit '' Veste en jean '', listing_description = lit ''bon etat'',
      listing_price = lit ''25'', listing_condition = [], listing_location = [],
      listing_brand = [], listing_size = lit ''M'', listing_colors = lit ''bleu, noir'',
      listing_schedule = [], post_leboncoin = False, post_vinted = True\<rparr>"

definition short_form :: form where
  "short_form = sample_form\<lparr>listing_title := lit '' ab  ''\<rparr>"

definition sample_analysis :: analysis where
  "sample_analysis =
     \<lparr>suggested_category = Some sample_category, confidence = Some (1 / 2),
      detected_gender = Some (lit ''femme''), alternatives = [lit ''Manteaux''],
      message = None\<rparr>"

definition sample_response :: "analysis response" where
  "sample_response = \<lparr>status = 200, json = Some (Object None sample_analysis)\<rparr>"

definition stale_state :: app_state where
  "stale_state = sample_state\<lparr>detectedCategory := Some sample_category\<rparr>"

definition no_match_response :: "analysis response" where
  "no_match_response =
     \<lparr>status = 200,
      json = Some (Object None
               \<lparr>suggested_category = None, confidence = None, detected_gender = None,
                alternatives = [], message = Some (lit ''Aucune categorie'')\<rparr>)\<rparr>"

definition two_images_state :: app_state where
  "two_images_state =
     stale_state\<lparr>uploadedImages :=
       [\<lparr>image_id = 5, image_url = lit ''/img/5''\<rparr>,
        \<lparr>image_id = 3, image_url = lit ''/img/3''\<rparr>]\<rparr>"

definition photo :: js_file where
  "photo = \<lparr>file_name = lit ''veste.jpg'', file_type = lit ''image/jpeg''\<rparr>"

definition document :: js_file where
  "document = \<lparr>file_name = lit ''facture.pdf'', file_type = lit ''application/pdf''\<rparr>"

definition upload_response :: "image list response" where
  "upload_response =
     \<lparr>status = 200,
      json = Some (Object None [\<lparr>image_id = 7, image_url = lit ''/img/7''\<rparr>])\<rparr>"

definition idle :: debounce_state where
  "idle = \<lparr>categoryDebounceTimer = None, pending = [], next_id = 1, analyses = []\<rparr>"

text \<open>
  A date parser for the concrete runs: it knows one value, read in UTC, and takes
  every other text it is asked about for an invalid date.
\<close>

definition sample_parse :: "jsstring \<Rightarrow> int option" where
  "sample_parse v = (if v = lit ''2030-01-01T10:00'' then Some 1893492000000 else None)"

definition scheduled_form :: form where
  "scheduled_form = sample_form\<lparr>listing_schedule := lit ''2030-01-01T10:00''\<rparr>"

definition created_response :: "listing response" where
  "created_response = \<lparr>status = 201, json = Some (Object None \<lparr>listing_id = 42\<rparr>)\<rparr>"

definition published_response :: "unit response" where
  "published_response = \<lparr>status = 200, json = Some (Object None ())\<rparr>"

section \<open>Auxiliary facts\<close>

lemma lit_simps [simp]:
  "lit [] = []"
  "lit (c # cs) = word_of_nat (of_char c) # lit cs"
  by (simp_all add: lit_def)

lemma code_unit_eq_iff:
  "(word_of_nat (of_char c) :: 16 word) = word_of_nat (of_char c') \<longleftrightarrow> c = c'"
proof -
  have "of_char c < (2 :: nat) ^ 16" "of_char c' < (2 :: nat) ^ 16"
    using nat_of_char_less_256 [of c] nat_of_char_less_256 [of c']
    by (simp_all del: nat_of_char_less_256)
  then have "take_bit 16 (of_char c :: nat) = of_char c"
    "take_bit 16 (of_char c' :: nat) = of_char c'"
    by (simp_all only: take_bit_nat_eq_self_iff)
  then show ?thesis
    by (simp add: word_of_nat_eq_iff)
qed

lemma lit_eq_iff: "lit a = lit b \<longleftrightarrow> a = b"
proof (induction a arbitrary: b)
  case Nil
  then show ?case by (cases b) simp_all
next
  case (Cons c cs)
  then show ?case by (cases b) (simp_all add: code_unit_eq_iff)
qed

lemma lit_Nil_iff: "lit a = [] \<longleftrightarrow> a = []"
  by (simp add: lit_def)

lemma showPage_login:
  "showPage (lit ''login'') st = ([ShowPage (lit ''login'')], st\<lparr>currentPage := lit ''login''\<rparr>)"
  by (simp add: showPage_def lit_eq_iff del: lit_simps)

lemma showPage_listings:
  "showPage (lit ''listings'') st =
     ([ShowPage (lit ''listings''), Fetch GET Listings (authorization st) NoBody],
      st\<lparr>currentPage := lit ''listings''\<rparr>)"
  by (simp add: showPage_def loadListings_def lit_eq_iff del: lit_simps)

lemma request_fetch_once:
  "\<exists>rest st' res.
     request m ep b out st = (Fetch m ep (authorization st) b # rest, st', res)
     \<and> \<not> list_ex is_fetch rest"
  by (cases out)
    (auto simp add: request_def request_resumed_def clearToken_def showPage_login Let_def
      simp del: lit_simps)

lemma request_ok_object:
  "ok r \<Longrightarrow> status r \<noteq> 204 \<Longrightarrow> json r = Some (Object d x) \<Longrightarrow>
   request m ep b (Resolved r) st = ([Fetch m ep (authorization st) b], st, Inr (Some x))"
  by (auto simp add: request_def request_resumed_def ok_def)

section \<open>Unauthorized responses\<close>

text \<open>
  C9. Whatever the call made through \<open>request\<close>, a response with status 401 clears
  the stored token, shows the login page, and makes \<open>request\<close> throw
  the error whose message is \<open>session_expired\<close>: the result is never data of the
  response.
\<close>

theorem request_unauthorized:
  "status r = 401 \<Longrightarrow>
   request m ep b (Resolved r) st =
     ([Fetch m ep (authorization st) b, LocalStorageRemoveToken, ShowPage (lit ''login'')],
      st\<lparr>token := None, currentPage := lit ''login''\<rparr>,
      Inl (Error session_expired))"
  by (simp add: request_def request_resumed_def clearToken_def showPage_login del: lit_simps)

theorem request_unauthorized_witness:
  "status \<lparr>status = 401, json = Some (Object None \<lparr>listing_id = 7\<rparr>)\<rparr> = 401 \<and>
   request GET Listings NoBody
     (Resolved \<lparr>status = 401, json = Some (Object None \<lparr>listing_id = 7\<rparr>)\<rparr>)
     sample_state =
     ([Fetch GET Listings (Some (lit ''Bearer tok'')) NoBody, LocalStorageRemoveToken,
       ShowPage (lit ''login'')],
      sample_state\<lparr>token := None, currentPage := lit ''login''\<rparr>,
      Inl (Error session_expired))"
  using request_unauthorized
    [of "\<lparr>status = 401, json = Some (Object None \<lparr>listing_id = 7\<rparr>)\<rparr>"
        GET Listings NoBody sample_state]
  by (simp add: authorization_def opt_or_null_def or_null_def sample_state_def)

section \<open>The title threshold of the classifier\<close>

text \<open>
  C2. When the trimmed title has fewer than 3 code units, \<open>analyzeVintedCategory\<close>
  only shows the hint and returns: no request is made and the state is unchanged.
  When it has at least 3, the loading text is shown and the classifier endpoint is
  called with the trimmed title and description. So the endpoint is called exactly
  when the trimmed title has length at least 3.
\<close>

theorem classifier_called_iff_title_long:
  "(length (trim (listing_title f)) < 3 \<longrightarrow>
      analyzeVintedCategory f out st = ([SetPreview Hint], st)) \<and>
   (3 \<le> length (trim (listing_title f)) \<longrightarrow>
      take 2 (fst (analyzeVintedCategory f out st)) =
        [SetPreview Loading,
         Fetch POST CategoriesAnalyze (authorization st)
           (AnalyzeJson (trim (listing_title f)) (trim (listing_description f)))]) \<and>
   (list_ex is_analyze_request (fst (analyzeVintedCategory f out st))
      \<longleftrightarrow> 3 \<le> length (trim (listing_title f)))"
proof -
  obtain rest st' res where
    r: "request POST CategoriesAnalyze
          (AnalyzeJson (trim (listing_title f)) (trim (listing_description f))) out st =
        (Fetch POST CategoriesAnalyze (authorization st)
           (AnalyzeJson (trim (listing_title f)) (trim (listing_description f))) # rest,
         st', res)"
    using request_fetch_once by blast
  show ?thesis
    by (simp add: analyzeVintedCategory_def analyzeCategory_def r Let_def
        split: option.splits sum.splits)
qed

theorem classifier_called_iff_title_long_witness:
  "length (trim (listing_title short_form)) < 3 \<and>
   analyzeVintedCategory short_form Rejected sample_state = ([SetPreview Hint], sample_state) \<and>
   3 \<le> length (trim (listing_title sample_form)) \<and>
   take 2 (fst (analyzeVintedCategory sample_form Rejected sample_state)) =
     [SetPreview Loading,
      Fetch POST CategoriesAnalyze (Some (lit ''Bearer tok''))
        (AnalyzeJson (lit ''Veste en jean'') (lit ''bon etat''))]"
proof -
  have short: "trim (listing_title short_form) = lit ''ab''"
    by (simp add: short_form_def sample_form_def trim_def is_whitespace_def)
  have long: "trim (listing_title sample_form) = lit ''Veste en jean''"
    by (simp add: sample_form_def trim_def is_whitespace_def)
  have descr: "trim (listing_description sample_form) = lit ''bon etat''"
    by (simp add: sample_form_def trim_def is_whitespace_def)
  have auth: "authorization sample_state = Some (lit ''Bearer tok'')"
    by (simp add: authorization_def opt_or_null_def or_null_def sample_state_def)
  show ?thesis
    using classifier_called_iff_title_long [of short_form Rejected sample_state]
      classifier_called_iff_title_long [of sample_form Rejected sample_state]
    by (simp add: short long descr auth)
qed

section \<open>Presentation of a classification result\<close>

lemma js_thresholds: "js_0_4 < js_0_7"
  by (simp add: js_0_4_def js_0_7_def)

text \<open>
  C3. When the classifier answers with a primary candidate and a confidence \<open>c\<close>,
  the preview shows the candidate with a confidence class that is high exactly when
  \<open>c >= 0.7\<close>, medium exactly when \<open>0.4 <= c < 0.7\<close> and low exactly when
  \<open>c < 0.4\<close> (the thresholds being the numbers the source literals denote), and
  the candidate is stored as the detected category whatever the class: a
  low-confidence candidate is displayed and kept.
\<close>

theorem confidence_tiers:
  assumes "3 \<le> length (trim (listing_title f))"
    and "ok r" and "status r \<noteq> 204" and "json r = Some (Object d result)"
    and "suggested_category result = Some cat" and "confidence result = Some c"
  shows "\<exists>k. analyzeVintedCategory f (Resolved r) st =
           ([SetPreview Loading,
             Fetch POST CategoriesAnalyze (authorization st)
               (AnalyzeJson (trim (listing_title f)) (trim (listing_description f))),
             SetPreview (Detected (full_path cat) k (opt_or_null (detected_gender result))
                           (alternatives result))],
            st\<lparr>detectedCategory := Some cat\<rparr>)
         \<and> (k = ConfidenceHigh \<longleftrightarrow> js_0_7 \<le> c)
         \<and> (k = ConfidenceMedium \<longleftrightarrow> js_0_4 \<le> c \<and> c < js_0_7)
         \<and> (k = ConfidenceLow \<longleftrightarrow> c < js_0_4)"
proof -
  have run: "analyzeVintedCategory f (Resolved r) st =
           ([SetPreview Loading,
             Fetch POST CategoriesAnalyze (authorization st)
               (AnalyzeJson (trim (listing_title f)) (trim (listing_description f))),
             SetPreview (Detected (full_path cat) (confidenceClass (Some c))
                           (opt_or_null (detected_gender result)) (alternatives result))],
            st\<lparr>detectedCategory := Some cat\<rparr>)"
    using assms
    by (simp add: analyzeVintedCategory_def analyzeCategory_def request_ok_object Let_def)
  have cls: "(confidenceClass (Some c) = ConfidenceHigh \<longleftrightarrow> js_0_7 \<le> c)
         \<and> (confidenceClass (Some c) = ConfidenceMedium \<longleftrightarrow> js_0_4 \<le> c \<and> c < js_0_7)
         \<and> (confidenceClass (Some c) = ConfidenceLow \<longleftrightarrow> c < js_0_4)"
    using js_thresholds by (auto simp add: confidenceClass_def js_ge_def)
  from run cls show ?thesis by blast
qed

theorem confidence_tiers_witness:
  "3 \<le> length (trim (listing_title sample_form)) \<and> ok sample_response \<and>
   status sample_response \<noteq> 204 \<and>
   json sample_response = Some (Object None sample_analysis) \<and>
   suggested_category sample_analysis = Some sample_category \<and>
   confidence sample_analysis = Some (1 / 2) \<and>
   analyzeVintedCategory sample_form (Resolved sample_response) sample_state =
     ([SetPreview Loading,
       Fetch POST CategoriesAnalyze (Some (lit ''Bearer tok''))
         (AnalyzeJson (lit ''Veste en jean'') (lit ''bon etat'')),
       SetPreview (Detected (lit ''Femmes > Vestes'') ConfidenceMedium (Some (lit ''femme''))
                     [lit ''Manteaux''])],
      sample_state\<lparr>detectedCategory := Some sample_category\<rparr>)"
proof -
  have long: "trim (listing_title sample_form) = lit ''Veste en jean''"
    by (simp add: sample_form_def trim_def is_whitespace_def)
  have descr: "trim (listing_description sample_form) = lit ''bon etat''"
    by (simp add: sample_form_def trim_def is_whitespace_def)
  have auth: "authorization sample_state = Some (lit ''Bearer tok'')"
    by (simp add: authorization_def opt_or_null_def or_null_def sample_state_def)
  have half: "js_0_4 \<le> 1 / 2 \<and> (1 / 2 :: rat) < js_0_7"
    by (simp add: js_0_4_def js_0_7_def)
  have resp: "ok sample_response \<and> status sample_response \<noteq> 204 \<and>
    json sample_response = Some (Object None sample_analysis)"
    by (simp add: sample_response_def ok_def)
  have ana: "suggested_category sample_analysis = Some sample_category \<and>
    confidence sample_analysis = Some (1 / 2) \<and>
    detected_gender sample_analysis = Some (lit ''femme'') \<and>
    alternatives sample_analysis = [lit ''Manteaux'']"
    by (simp add: sample_analysis_def)
  have cat: "full_path sample_category = lit ''Femmes > Vestes''"
    by (simp add: sample_category_def)
  show ?thesis
    using confidence_tiers [of sample_form sample_response None sample_analysis
        sample_category "1 / 2" sample_state] half
    by (simp add: long descr auth resp ana cat opt_or_null_def or_null_def)
qed

text \<open>
  C6. When the classifier answers without a primary candidate, the preview shows the
  answer's \<open>message\<close>, or the fallback text when the message is absent or empty, and
  the stored detected category is reset to null, so that the data of a listing built
  afterwards carries no category and no category path.
\<close>

theorem no_candidate_resets_category:
  assumes "3 \<le> length (trim (listing_title f))"
    and "ok r" and "status r \<noteq> 204" and "json r = Some (Object d result)"
    and "suggested_category result = None"
  shows "analyzeVintedCategory f (Resolved r) st =
           ([SetPreview Loading,
             Fetch POST CategoriesAnalyze (authorization st)
               (AnalyzeJson (trim (listing_title f)) (trim (listing_description f))),
             SetPreview (Warning (case message result of
                                    None \<Rightarrow> no_category_message
                                  | Some m \<Rightarrow> if m = [] then no_category_message else m))],
            st\<lparr>detectedCategory := None\<rparr>)
         \<and> category (listing_data g (snd (analyzeVintedCategory f (Resolved r) st))) = None
         \<and> category_path (listing_data g (snd (analyzeVintedCategory f (Resolved r) st)))
             = None"
  using assms
  by (simp add: analyzeVintedCategory_def analyzeCategory_def request_ok_object Let_def
      or_else_def opt_or_null_def or_null_def listing_data_def split: option.splits)

theorem no_candidate_resets_category_witness:
  "3 \<le> length (trim (listing_title sample_form)) \<and> ok no_match_response \<and>
   status no_match_response \<noteq> 204 \<and>
   suggested_category
     \<lparr>suggested_category = None, confidence = None, detected_gender = None,
      alternatives = [], message = Some (lit ''Aucune categorie'')\<rparr> = None \<and>
   detectedCategory stale_state = Some sample_category \<and>
   analyzeVintedCategory sample_form (Resolved no_match_response) stale_state =
     ([SetPreview Loading,
       Fetch POST CategoriesAnalyze (Some (lit ''Bearer tok''))
         (AnalyzeJson (lit ''Veste en jean'') (lit ''bon etat'')),
       SetPreview (Warning (lit ''Aucune categorie''))],
      sample_state)"
proof -
  have long: "trim (listing_title sample_form) = lit ''Veste en jean''"
    by (simp add: sample_form_def trim_def is_whitespace_def)
  have descr: "trim (listing_description sample_form) = lit ''bon etat''"
    by (simp add: sample_form_def trim_def is_whitespace_def)
  have auth: "authorization stale_state = Some (lit ''Bearer tok'')"
    by (simp add: authorization_def opt_or_null_def or_null_def sample_state_def
        stale_state_def)
  have resp: "ok no_match_response \<and> status no_match_response \<noteq> 204 \<and>
    json no_match_response = Some (Object None
               \<lparr>suggested_category = None, confidence = None, detected_gender = None,
                alternatives = [], message = Some (lit ''Aucune categorie'')\<rparr>)"
    by (simp add: no_match_response_def ok_def)
  have st: "stale_state\<lparr>detectedCategory := None\<rparr> = sample_state \<and>
    detectedCategory stale_state = Some sample_category"
    by (simp add: stale_state_def sample_state_def)
  show ?thesis
    using no_candidate_resets_category [of sample_form no_match_response None
        "\<lparr>suggested_category = None, confidence = None, detected_gender = None,
          alternatives = [], message = Some (lit ''Aucune categorie'')\<rparr>" stale_state]
    by (simp add: long descr auth resp st)
qed

section \<open>The status vocabulary\<close>

text \<open>
  C4. The own properties of the table of \<open>translateStatus\<close> are exactly the seven
  literals draft, scheduled, pending, publishing, published, failed and deleted, each
  once; \<open>translateStatus\<close> maps each of them to its French label; and a status that
  is none of the seven has no entry: it comes back untranslated (unless it names a
  member of \<open>Object.prototype\<close>, which the property read then finds).
\<close>

theorem status_vocabulary:
  "dom (map_of translation_table) =
     set (map lit [''draft'', ''scheduled'', ''pending'', ''publishing'', ''published'',
                   ''failed'', ''deleted''])
   \<and> distinct (map fst translation_table)
   \<and> translateStatus (lit ''draft'') = Str (lit ''Brouillon'')
   \<and> translateStatus (lit ''scheduled'') = Str (lit (''Planifi'' @ [CHR 0xE9]))
   \<and> translateStatus (lit ''pending'') = Str (lit ''En attente'')
   \<and> translateStatus (lit ''publishing'') = Str (lit ''Publication...'')
   \<and> translateStatus (lit ''published'') = Str (lit (''Publi'' @ [CHR 0xE9]))
   \<and> translateStatus (lit ''failed'') = Str (lit ([CHR 0xC9] @ ''chec''))
   \<and> translateStatus (lit ''deleted'') = Str (lit (''Supprim'' @ [CHR 0xE9]))
   \<and> (\<forall>s. s \<notin> set (map lit [''draft'', ''scheduled'', ''pending'', ''publishing'',
                               ''published'', ''failed'', ''deleted''])
          \<longrightarrow> map_of translation_table s = None
              \<and> translateStatus s = (if s \<in> set object_prototype then Inherited s else Str s))"
proof -
  have d: "dom (map_of translation_table) =
     set (map lit [''draft'', ''scheduled'', ''pending'', ''publishing'', ''published'',
                   ''failed'', ''deleted''])"
    unfolding dom_map_of_conv_image_fst
    by (simp add: translation_table_def del: lit_simps) blast
  have dist: "distinct (map fst translation_table)"
    by (simp add: translation_table_def lit_eq_iff del: lit_simps)
  have labels: "translateStatus (lit ''draft'') = Str (lit ''Brouillon'')"
    "translateStatus (lit ''scheduled'') = Str (lit (''Planifi'' @ [CHR 0xE9]))"
    "translateStatus (lit ''pending'') = Str (lit ''En attente'')"
    "translateStatus (lit ''publishing'') = Str (lit ''Publication...'')"
    "translateStatus (lit ''published'') = Str (lit (''Publi'' @ [CHR 0xE9]))"
    "translateStatus (lit ''failed'') = Str (lit ([CHR 0xC9] @ ''chec''))"
    "translateStatus (lit ''deleted'') = Str (lit (''Supprim'' @ [CHR 0xE9]))"
    by (simp_all add: translateStatus_def translation_table_def lit_eq_iff lit_Nil_iff
        del: lit_simps)
  have other: "map_of translation_table s = None
      \<and> translateStatus s = (if s \<in> set object_prototype then Inherited s else Str s)"
    if "s \<notin> set (map lit [''draft'', ''scheduled'', ''pending'', ''publishing'',
                               ''published'', ''failed'', ''deleted''])" for s
  proof -
    from that d have "s \<notin> dom (map_of translation_table)" by simp
    then have "map_of translation_table s = None" by blast
    then show ?thesis by (simp add: translateStatus_def)
  qed
  from other have "\<forall>s. s \<notin> set (map lit [''draft'', ''scheduled'', ''pending'', ''publishing'',
                               ''published'', ''failed'', ''deleted''])
          \<longrightarrow> map_of translation_table s = None
              \<and> translateStatus s = (if s \<in> set object_prototype then Inherited s else Str s)"
    by (intro allI impI)
  with d dist labels show ?thesis by (intro conjI)
qed

theorem status_vocabulary_witness:
  "lit ''archived'' \<notin> set (map lit [''draft'', ''scheduled'', ''pending'', ''publishing'',
                               ''published'', ''failed'', ''deleted''])
   \<and> translateStatus (lit ''archived'') = Str (lit ''archived'')
   \<and> lit ''constructor'' \<notin> set (map lit [''draft'', ''scheduled'', ''pending'',
                               ''publishing'', ''published'', ''failed'', ''deleted''])
   \<and> translateStatus (lit ''constructor'') = Inherited (lit ''constructor'')"
proof -
  have a: "lit ''archived'' \<notin> set (map lit [''draft'', ''scheduled'', ''pending'',
                               ''publishing'', ''published'', ''failed'', ''deleted''])"
    by (simp add: lit_eq_iff del: lit_simps)
  have c: "lit ''constructor'' \<notin> set (map lit [''draft'', ''scheduled'', ''pending'',
                               ''publishing'', ''published'', ''failed'', ''deleted''])"
    by (simp add: lit_eq_iff del: lit_simps)
  have pa: "lit ''archived'' \<notin> set object_prototype"
    by (simp add: object_prototype_def lit_eq_iff del: lit_simps)
  have pc: "lit ''constructor'' \<in> set object_prototype"
    by (simp add: object_prototype_def del: lit_simps)
  from status_vocabulary have
    "\<forall>s. s \<notin> set (map lit [''draft'', ''scheduled'', ''pending'', ''publishing'',
                               ''published'', ''failed'', ''deleted''])
          \<longrightarrow> map_of translation_table s = None
              \<and> translateStatus s = (if s \<in> set object_prototype then Inherited s else Str s)"
    by (elim conjE)
  with a c pa pc show ?thesis by (simp del: lit_simps set_map list.map)
qed

section \<open>The category guard of listing creation\<close>

lemma with_schedule_valid:
  "listing_schedule f = [] \<or> parse (listing_schedule f) \<noteq> None \<Longrightarrow>
   with_schedule parse (listing_schedule f) d =
     Inr (d\<lparr>scheduled_at :=
               (if listing_schedule f = [] then scheduled_at d
                else map_option ISOString (parse (listing_schedule f)))\<rparr>)"
  by (auto simp add: with_schedule_def)

lemma scheduled_at_listing_data [simp]: "scheduled_at (listing_data f st) = None"
  by (simp add: listing_data_def)

lemma image_ids_listing_data [simp]:
  "image_ids (listing_data f st) = map image_id (uploadedImages st)"
  by (simp add: listing_data_def)

lemma post_to_vinted_listing_data [simp]: "post_to_vinted (listing_data f st) = post_vinted f"
  by (simp add: listing_data_def)

lemma with_schedule_keeps:
  "with_schedule parse v d = Inr d' \<Longrightarrow>
   post_to_vinted d' = post_to_vinted d \<and> image_ids d' = image_ids d"
  by (auto simp add: with_schedule_def split: if_splits option.splits)



lemma create_request_first:
  "\<exists>rest st' res.
     createListing d co st =
       (Fetch POST Listings (authorization st) (CreateListingJson d) # rest, st', res)"
  using request_fetch_once [of POST Listings "CreateListingJson d" co st]
  by (auto simp add: createListing_def)

lemma handleCreateListing_sends:
  assumes "with_schedule parse (listing_schedule f) (listing_data f st) = Inr d"
    and "\<not> (post_vinted f \<and> detectedCategory st = None)"
  shows "\<exists>rest. fst (handleCreateListing parse f co po st) =
           PreventDefault # Fetch POST Listings (authorization st) (CreateListingJson d) # rest"
proof -
  obtain rest st' res where
    c: "createListing d co st =
          (Fetch POST Listings (authorization st) (CreateListingJson d) # rest, st', res)"
    using create_request_first by blast
  from with_schedule_keeps [OF assms(1)] assms(2)
  have g: "\<not> (post_to_vinted d \<and> detectedCategory st = None)"
    by simp
  show ?thesis
    using g
    by (cases "post_to_vinted d"; cases "detectedCategory st")
      (simp_all add: handleCreateListing_def assms(1) c Let_def showPage_listings
        del: lit_simps split: sum.splits prod.splits)
qed

section \<open>Publishing right after creation\<close>

lemma publish_request_first:
  "\<exists>rest st' res.
     publishListing i po st =
       (Fetch POST (ListingPublish i) (authorization st) NoBody # rest, st', res)"
  using request_fetch_once [of POST "ListingPublish i" NoBody po st]
  by (auto simp add: publishListing_def)

lemma createListing_ok:
  "ok r \<Longrightarrow> status r \<noteq> 204 \<Longrightarrow> json r = Some (Object dt l) \<Longrightarrow>
   createListing d (Resolved r) st =
     ([Fetch POST Listings (authorization st) (CreateListingJson d)], st, Inr (Some l))"
  by (simp add: createListing_def request_ok_object)

lemma handleCreateListing_created:
  assumes w: "with_schedule parse (listing_schedule f) (listing_data f st) = Inr d"
    and g: "\<not> (post_vinted f \<and> detectedCategory st = None)"
    and r: "ok r" "status r \<noteq> 204" "json r = Some (Object dt l)"
  shows "handleCreateListing parse f (Resolved r) po st =
     (case publish_unless_scheduled (listing_schedule f) (Some l) po st of
        Inl (e3, st2, err) \<Rightarrow>
          ([PreventDefault,
            Fetch POST Listings (authorization st) (CreateListingJson d),
            Toast (Text listing_created) ToastSuccess] @ e3 @
           [Toast (error_message err) ToastError], st2)
      | Inr (e3, st2) \<Rightarrow>
          ([PreventDefault,
            Fetch POST Listings (authorization st) (CreateListingJson d),
            Toast (Text listing_created) ToastSuccess] @ e3 @
           [FormReset, RenderImagePreviews [], SetPreview Hint, ShowPage (lit ''listings''),
            Fetch GET Listings (authorization st2) NoBody],
           st2\<lparr>uploadedImages := [], detectedCategory := None,
               currentPage := lit ''listings''\<rparr>))"
proof -
  from with_schedule_keeps [OF w] g
  have g': "\<not> (post_to_vinted d \<and> detectedCategory st = None)"
    by simp
  have c: "createListing d (Resolved r) st =
     ([Fetch POST Listings (authorization st) (CreateListingJson d)], st, Inr (Some l))"
    using r by (rule createListing_ok)
  show ?thesis
    by (simp add: handleCreateListing_def w c if_not_P [OF g'] showToast_def
        showPage_listings authorization_def Let_def del: lit_simps
        split: sum.splits prod.splits)
qed

lemma publish_unless_scheduled_empty:
  "\<exists>rest st2 err.
     publish_unless_scheduled [] (Some l) po st =
       Inl (Fetch POST (ListingPublish (listing_id l)) (authorization st) NoBody # rest,
            st2, err)
     \<or> publish_unless_scheduled [] (Some l) po st =
       Inr (Fetch POST (ListingPublish (listing_id l)) (authorization st) NoBody # rest, st2)"
proof -
  obtain rest st' res where
    p: "publishListing (listing_id l) po st =
          (Fetch POST (ListingPublish (listing_id l)) (authorization st) NoBody # rest, st', res)"
    using publish_request_first by blast
  show ?thesis
    by (cases res) (simp_all add: publish_unless_scheduled_def p)
qed

lemma publish_unless_scheduled_set:
  "v \<noteq> [] \<Longrightarrow> publish_unless_scheduled v created po st = Inr ([], st)"
  by (simp add: publish_unless_scheduled_def)

lemma publish_iff_not_scheduled_core:
  assumes "listing_schedule f = [] \<or> parse (listing_schedule f) \<noteq> None"
    and "\<not> (post_vinted f \<and> detectedCategory st = None)"
    and "ok r" and "status r \<noteq> 204" and "json r = Some (Object dt l)"
  shows "(list_ex is_publish_request (fst (handleCreateListing parse f (Resolved r) po st))
           \<longleftrightarrow> listing_schedule f = [])
    \<and> scheduled_at (listing_data f st) = None
    \<and> (listing_schedule f = [] \<longrightarrow>
          take 4 (fst (handleCreateListing parse f (Resolved r) po st)) =
            [PreventDefault,
             Fetch POST Listings (authorization st) (CreateListingJson (listing_data f st)),
             Toast (Text listing_created) ToastSuccess,
             Fetch POST (ListingPublish (listing_id l)) (authorization st) NoBody])
    \<and> (listing_schedule f \<noteq> [] \<longrightarrow>
          (\<exists>t. parse (listing_schedule f) = Some t \<and>
             handleCreateListing parse f (Resolved r) po st =
               ([PreventDefault,
                 Fetch POST Listings (authorization st)
                   (CreateListingJson ((listing_data f st)\<lparr>scheduled_at := Some (ISOString t)\<rparr>)),
                 Toast (Text listing_created) ToastSuccess,
                 FormReset, RenderImagePreviews [], SetPreview Hint,
                 ShowPage (lit ''listings''),
                 Fetch GET Listings (authorization st) NoBody],
                st\<lparr>uploadedImages := [], detectedCategory := None,
                   currentPage := lit ''listings''\<rparr>)))"
proof (cases "listing_schedule f = []")
  case True
  have w: "with_schedule parse (listing_schedule f) (listing_data f st)
      = Inr (listing_data f st)"
    using True by (simp add: with_schedule_def)
  note run = handleCreateListing_created [OF w assms(2-5), of po]
  from publish_unless_scheduled_empty [of l po st] obtain rest st2 err where
    "publish_unless_scheduled [] (Some l) po st =
       Inl (Fetch POST (ListingPublish (listing_id l)) (authorization st) NoBody # rest,
            st2, err)
     \<or> publish_unless_scheduled [] (Some l) po st =
       Inr (Fetch POST (ListingPublish (listing_id l)) (authorization st) NoBody # rest, st2)"
    by blast
  then show ?thesis
  proof
    assume "publish_unless_scheduled [] (Some l) po st =
       Inl (Fetch POST (ListingPublish (listing_id l)) (authorization st) NoBody # rest,
            st2, err)"
    with run True show ?thesis by (simp del: lit_simps)
  next
    assume "publish_unless_scheduled [] (Some l) po st =
       Inr (Fetch POST (ListingPublish (listing_id l)) (authorization st) NoBody # rest, st2)"
    with run True show ?thesis by (simp del: lit_simps)
  qed
next
  case False
  with assms(1) obtain t where t: "parse (listing_schedule f) = Some t"
    by blast
  have w: "with_schedule parse (listing_schedule f) (listing_data f st) =
      Inr ((listing_data f st)\<lparr>scheduled_at := Some (ISOString t)\<rparr>)"
    using False t by (simp add: with_schedule_def)
  have pub: "publish_unless_scheduled (listing_schedule f) (Some l) po st = Inr ([], st)"
    using False by (rule publish_unless_scheduled_set)
  have run: "handleCreateListing parse f (Resolved r) po st =
               ([PreventDefault,
                 Fetch POST Listings (authorization st)
                   (CreateListingJson ((listing_data f st)\<lparr>scheduled_at := Some (ISOString t)\<rparr>)),
                 Toast (Text listing_created) ToastSuccess,
                 FormReset, RenderImagePreviews [], SetPreview Hint,
                 ShowPage (lit ''listings''),
                 Fetch GET Listings (authorization st) NoBody],
                st\<lparr>uploadedImages := [], detectedCategory := None,
                   currentPage := lit ''listings''\<rparr>)"
    unfolding handleCreateListing_created [OF w assms(2-5), of po] pub
    by (simp only: sum.case prod.case append_Nil append_Cons)
  have none: "\<not> list_ex is_publish_request
                 (fst (handleCreateListing parse f (Resolved r) po st))"
    unfolding run by (simp del: lit_simps)
  show ?thesis
  proof (intro conjI impI)
    show "list_ex is_publish_request (fst (handleCreateListing parse f (Resolved r) po st))
           \<longleftrightarrow> listing_schedule f = []"
      using none False by simp
    show "scheduled_at (listing_data f st) = None"
      by simp
    show "take 4 (fst (handleCreateListing parse f (Resolved r) po st)) =
            [PreventDefault,
             Fetch POST Listings (authorization st) (CreateListingJson (listing_data f st)),
             Toast (Text listing_created) ToastSuccess,
             Fetch POST (ListingPublish (listing_id l)) (authorization st) NoBody]"
      if "listing_schedule f = []"
      using that False by simp
    show "\<exists>t. parse (listing_schedule f) = Some t \<and>
             handleCreateListing parse f (Resolved r) po st =
               ([PreventDefault,
                 Fetch POST Listings (authorization st)
                   (CreateListingJson ((listing_data f st)\<lparr>scheduled_at := Some (ISOString t)\<rparr>)),
                 Toast (Text listing_created) ToastSuccess,
                 FormReset, RenderImagePreviews [], SetPreview Hint,
                 ShowPage (lit ''listings''),
                 Fetch GET Listings (authorization st) NoBody],
                st\<lparr>uploadedImages := [], detectedCategory := None,
                   currentPage := lit ''listings''\<rparr>)"
      using t run by (intro exI [of _ t] conjI)
  qed
qed

lemma handleCreateListing_published:
  assumes "\<not> (post_vinted f \<and> detectedCategory st = None)"
    and "ok r" and "status r \<noteq> 204" and "json r = Some (Object dt l)"
    and "listing_schedule f = []"
    and "ok q" and "status q \<noteq> 204" and "json q = Some (Object dq u)"
  shows "handleCreateListing parse f (Resolved r) (Resolved q) st =
           ([PreventDefault,
             Fetch POST Listings (authorization st) (CreateListingJson (listing_data f st)),
             Toast (Text listing_created) ToastSuccess,
             Fetch POST (ListingPublish (listing_id l)) (authorization st) NoBody,
             Toast (Text publication_started) ToastSuccess,
             FormReset, RenderImagePreviews [], SetPreview Hint,
             ShowPage (lit ''listings''),
             Fetch GET Listings (authorization st) NoBody],
            st\<lparr>uploadedImages := [], detectedCategory := None,
               currentPage := lit ''listings''\<rparr>)"
proof -
  have w: "with_schedule parse (listing_schedule f) (listing_data f st)
      = Inr (listing_data f st)"
    using assms(5) by (simp add: with_schedule_def)
  have pub: "publish_unless_scheduled (listing_schedule f) (Some l) (Resolved q) st =
      Inr ([Fetch POST (ListingPublish (listing_id l)) (authorization st) NoBody,
            Toast (Text publication_started) ToastSuccess], st)"
    using assms(5)
    by (simp add: publish_unless_scheduled_def publishListing_def
        request_ok_object [OF assms(6-8)] showToast_def)
  show ?thesis
    unfolding handleCreateListing_created [OF w assms(1-4), of "Resolved q"] pub
    by (simp only: sum.case prod.case append_Nil append_Cons)
qed

text \<open>
  C8. Take a submission that reaches the create request, answered with the created
  listing. A publish request is among the effects exactly when the schedule field
  was empty. With an empty field the data carry no \<open>scheduled_at\<close> and the publish
  request for the new listing follows the creation directly; when it is answered in
  turn, the handler resets the form and shows the listings page, whose load it
  starts. With a schedule value the data carry \<open>scheduled_at\<close>, the ISO text of the
  entered time, and the handler goes on to reset the form and show the listings page
  without any publish request.
\<close>

theorem publish_iff_not_scheduled:
  assumes "listing_schedule f = [] \<or> parse (listing_schedule f) \<noteq> None"
    and "\<not> (post_vinted f \<and> detectedCategory st = None)"
    and "ok r" and "status r \<noteq> 204" and "json r = Some (Object dt l)"
  shows "(list_ex is_publish_request (fst (handleCreateListing parse f (Resolved r) po st))
           \<longleftrightarrow> listing_schedule f = [])
    \<and> scheduled_at (listing_data f st) = None
    \<and> (listing_schedule f = [] \<longrightarrow>
          take 4 (fst (handleCreateListing parse f (Resolved r) po st)) =
            [PreventDefault,
             Fetch POST Listings (authorization st) (CreateListingJson (listing_data f st)),
             Toast (Text listing_created) ToastSuccess,
             Fetch POST (ListingPublish (listing_id l)) (authorization st) NoBody])
    \<and> (listing_schedule f = [] \<and> ok q \<and> status q \<noteq> 204 \<and> json q = Some (Object dq u) \<longrightarrow>
          handleCreateListing parse f (Resolved r) (Resolved q) st =
            ([PreventDefault,
              Fetch POST Listings (authorization st) (CreateListingJson (listing_data f st)),
              Toast (Text listing_created) ToastSuccess,
              Fetch POST (ListingPublish (listing_id l)) (authorization st) NoBody,
              Toast (Text publication_started) ToastSuccess,
              FormReset, RenderImagePreviews [], SetPreview Hint,
              ShowPage (lit ''listings''),
              Fetch GET Listings (authorization st) NoBody],
             st\<lparr>uploadedImages := [], detectedCategory := None,
                currentPage := lit ''listings''\<rparr>))
    \<and> (listing_schedule f \<noteq> [] \<longrightarrow>
          (\<exists>t. parse (listing_schedule f) = Some t \<and>
             handleCreateListing parse f (Resolved r) po st =
               ([PreventDefault,
                 Fetch POST Listings (authorization st)
                   (CreateListingJson ((listing_data f st)\<lparr>scheduled_at := Some (ISOString t)\<rparr>)),
                 Toast (Text listing_created) ToastSuccess,
                 FormReset, RenderImagePreviews [], SetPreview Hint,
                 ShowPage (lit ''listings''),
                 Fetch GET Listings (authorization st) NoBody],
                st\<lparr>uploadedImages := [], detectedCategory := None,
                   currentPage := lit ''listings''\<rparr>)))"
proof -
  note core = publish_iff_not_scheduled_core [of f parse st r dt l po, OF assms]
  have full: "handleCreateListing parse f (Resolved r) (Resolved q) st =
            ([PreventDefault,
              Fetch POST Listings (authorization st) (CreateListingJson (listing_data f st)),
              Toast (Text listing_created) ToastSuccess,
              Fetch POST (ListingPublish (listing_id l)) (authorization st) NoBody,
              Toast (Text publication_started) ToastSuccess,
              FormReset, RenderImagePreviews [], SetPreview Hint,
              ShowPage (lit ''listings''),
              Fetch GET Listings (authorization st) NoBody],
             st\<lparr>uploadedImages := [], detectedCategory := None,
                currentPage := lit ''listings''\<rparr>)"
    if "listing_schedule f = [] \<and> ok q \<and> status q \<noteq> 204 \<and> json q = Some (Object dq u)"
    using that handleCreateListing_published [of f st r dt l q dq u parse] assms(2-5)
    by blast
  from core full show ?thesis
    by blast
qed

theorem publish_iff_not_scheduled_witness:
  "listing_schedule sample_form = [] \<and>
   sample_parse (listing_schedule scheduled_form) = Some 1893492000000 \<and>
   \<not> (post_vinted sample_form \<and> detectedCategory stale_state = None) \<and>
   ok created_response \<and> status created_response \<noteq> 204 \<and>
   json created_response = Some (Object None \<lparr>listing_id = 42\<rparr>) \<and>
   take 4 (fst (handleCreateListing sample_parse sample_form (Resolved created_response)
                  (Resolved published_response) stale_state)) =
     [PreventDefault,
      Fetch POST Listings (authorization stale_state)
        (CreateListingJson (listing_data sample_form stale_state)),
      Toast (Text listing_created) ToastSuccess,
      Fetch POST (ListingPublish 42) (authorization stale_state) NoBody] \<and>
   list_ex is_publish_request
     (fst (handleCreateListing sample_parse sample_form (Resolved created_response)
             (Resolved published_response) stale_state)) \<and>
   \<not> list_ex is_publish_request
     (fst (handleCreateListing sample_parse scheduled_form (Resolved created_response)
             (Resolved published_response) stale_state)) \<and>
   length listing_created = 25 \<and>
   fst (handleCreateListing sample_parse sample_form (Resolved created_response)
          (Resolved published_response) stale_state) =
     [PreventDefault,
      Fetch POST Listings (authorization stale_state)
        (CreateListingJson (listing_data sample_form stale_state)),
      Toast (Text listing_created) ToastSuccess,
      Fetch POST (ListingPublish 42) (authorization stale_state) NoBody,
      Toast (Text publication_started) ToastSuccess,
      FormReset, RenderImagePreviews [], SetPreview Hint,
      ShowPage (lit ''listings''),
      Fetch GET Listings (authorization stale_state) NoBody]"
proof -
  have e: "listing_schedule sample_form = []"
    by (simp add: sample_form_def)
  have v: "post_vinted scheduled_form = post_vinted sample_form"
    "listing_schedule scheduled_form = lit ''2030-01-01T10:00''"
    by (simp_all add: scheduled_form_def del: lit_simps)
  have t: "sample_parse (listing_schedule scheduled_form) = Some 1893492000000"
    "listing_schedule scheduled_form \<noteq> []"
    by (simp_all add: v sample_parse_def lit_Nil_iff del: lit_simps)
  have g: "\<not> (post_vinted sample_form \<and> detectedCategory stale_state = None)"
    by (simp add: stale_state_def)
  have r: "ok created_response" "status created_response \<noteq> 204"
    "json created_response = Some (Object None \<lparr>listing_id = 42\<rparr>)"
    by (simp_all add: created_response_def ok_def)
  have h1: "listing_schedule sample_form = []
      \<or> sample_parse (listing_schedule sample_form) \<noteq> None"
    using e by simp
  have h2: "listing_schedule scheduled_form = []
      \<or> sample_parse (listing_schedule scheduled_form) \<noteq> None"
    using t by simp
  have g2: "\<not> (post_vinted scheduled_form \<and> detectedCategory stale_state = None)"
    using g by (simp add: v(1))
  have q: "ok published_response" "status published_response \<noteq> 204"
    "json published_response = Some (Object None ())"
    by (simp_all add: published_response_def ok_def)
  have len: "length listing_created = 25"
    by (simp add: listing_created_def)
  note now = publish_iff_not_scheduled
    [of sample_form sample_parse stale_state created_response None "\<lparr>listing_id = 42\<rparr>"
        "Resolved published_response" published_response None "()", OF h1 g r]
  note later = publish_iff_not_scheduled
    [of scheduled_form sample_parse stale_state created_response None "\<lparr>listing_id = 42\<rparr>"
        "Resolved published_response" published_response None "()", OF h2 g2 r]
  from now e q have "handleCreateListing sample_parse sample_form (Resolved created_response)
          (Resolved published_response) stale_state =
     ([PreventDefault,
      Fetch POST Listings (authorization stale_state)
        (CreateListingJson (listing_data sample_form stale_state)),
      Toast (Text listing_created) ToastSuccess,
      Fetch POST (ListingPublish (listing_id \<lparr>listing_id = 42\<rparr>))
        (authorization stale_state) NoBody,
      Toast (Text publication_started) ToastSuccess,
      FormReset, RenderImagePreviews [], SetPreview Hint,
      ShowPage (lit ''listings''),
      Fetch GET Listings (authorization stale_state) NoBody],
      stale_state\<lparr>uploadedImages := [], detectedCategory := None,
                currentPage := lit ''listings''\<rparr>)"
    by blast
  then have whole: "fst (handleCreateListing sample_parse sample_form
        (Resolved created_response) (Resolved published_response) stale_state) =
     [PreventDefault,
      Fetch POST Listings (authorization stale_state)
        (CreateListingJson (listing_data sample_form stale_state)),
      Toast (Text listing_created) ToastSuccess,
      Fetch POST (ListingPublish 42) (authorization stale_state) NoBody,
      Toast (Text publication_started) ToastSuccess,
      FormReset, RenderImagePreviews [], SetPreview Hint,
      ShowPage (lit ''listings''),
      Fetch GET Listings (authorization stale_state) NoBody]"
    by (simp only: listing.select_convs fst_conv)
  from now e have a: "list_ex is_publish_request
     (fst (handleCreateListing sample_parse sample_form (Resolved created_response)
             (Resolved published_response) stale_state))"
    by blast
  from now e have b: "take 4 (fst (handleCreateListing sample_parse sample_form
        (Resolved created_response) (Resolved published_response) stale_state)) =
     [PreventDefault,
      Fetch POST Listings (authorization stale_state)
        (CreateListingJson (listing_data sample_form stale_state)),
      Toast (Text listing_created) ToastSuccess,
      Fetch POST (ListingPublish (listing_id \<lparr>listing_id = 42\<rparr>))
        (authorization stale_state) NoBody]"
    by blast
  from later t have c: "\<not> list_ex is_publish_request
     (fst (handleCreateListing sample_parse scheduled_form (Resolved created_response)
             (Resolved published_response) stale_state))"
    by blast
  from b have b': "take 4 (fst (handleCreateListing sample_parse sample_form
        (Resolved created_response) (Resolved published_response) stale_state)) =
     [PreventDefault,
      Fetch POST Listings (authorization stale_state)
        (CreateListingJson (listing_data sample_form stale_state)),
      Toast (Text listing_created) ToastSuccess,
      Fetch POST (ListingPublish 42) (authorization stale_state) NoBody]"
    by (simp only: listing.select_convs)
  from e t(1) g r a b' c len whole show ?thesis
    by (intro conjI)
qed

section \<open>Uploaded images\<close>

lemma handleImageUpload_answered:
  "uploadedImages (snd (handleImageUpload files out st))
     = uploadedImages st @ answered (ImageUpload files out)"
  by (cases out)
    (auto simp add: handleImageUpload_def uploadImages_def Let_def
      split: option.splits json.splits)

lemma handleImageUpload_request:
  "filter (\<lambda>f. file_type f \<in> set valid_image_types) files \<noteq> [] \<Longrightarrow>
   \<exists>rest. fst (handleImageUpload files out st) =
     Fetch POST UploadsImages
       (Some (lit ''Bearer '' @ (case token st of None \<Rightarrow> lit ''null'' | Some t \<Rightarrow> t)))
       (FormData (filter (\<lambda>f. file_type f \<in> set valid_image_types) files)) # rest
     \<and> \<not> list_ex is_fetch rest"
  by (cases out)
    (auto simp add: handleImageUpload_def uploadImages_def Let_def showToast_def
      simp del: lit_simps split: option.splits json.splits)

lemma handleImageUpload_sent:
  "concat (map sent_image_ids (fst (handleImageUpload files out st))) = []"
  by (cases out)
    (auto simp add: handleImageUpload_def uploadImages_def Let_def showToast_def
      simp del: lit_simps split: option.splits json.splits)

lemma request_images:
  "uploadedImages (fst (snd (request m ep b out st))) = uploadedImages st"
  by (cases out)
    (auto simp add: request_def request_resumed_def clearToken_def showPage_login Let_def
      simp del: lit_simps)

lemma request_resumed_images:
  "uploadedImages (fst (snd (request_resumed out st))) = uploadedImages st"
  by (cases out)
    (auto simp add: request_resumed_def clearToken_def showPage_login Let_def
      simp del: lit_simps)

lemma request_resumed_sent:
  "concat (map sent_image_ids (fst (request_resumed out st))) = []"
  by (cases out)
    (auto simp add: request_resumed_def clearToken_def showPage_login Let_def
      simp del: lit_simps)

lemma loadListings_resumed_images_sent:
  "uploadedImages (snd (loadListings_resumed out st)) = uploadedImages st
   \<and> concat (map sent_image_ids (fst (loadListings_resumed out st))) = []"
proof -
  obtain es st1 res where r: "request_resumed out st = (es, st1, res)"
    by (cases "request_resumed out st")
  from request_resumed_images [of out st] request_resumed_sent [of out st] r
  have "uploadedImages st1 = uploadedImages st" "concat (map sent_image_ids es) = []"
    by simp_all
  then show ?thesis
    by (simp add: loadListings_resumed_def r showToast_def split: sum.splits option.splits)
qed

lemma loadDashboard_resumed_images_sent:
  "uploadedImages (snd (loadDashboard_resumed out st)) = uploadedImages st
   \<and> concat (map sent_image_ids (fst (loadDashboard_resumed out st))) = []"
proof -
  obtain es st1 res where r: "request_resumed out st = (es, st1, res)"
    by (cases "request_resumed out st")
  from request_resumed_images [of out st] request_resumed_sent [of out st] r
  have "uploadedImages st1 = uploadedImages st" "concat (map sent_image_ids es) = []"
    by simp_all
  then show ?thesis
    by (simp add: loadDashboard_resumed_def r showToast_def split: sum.splits option.splits)
qed

lemma request_sent:
  "concat (map sent_image_ids (fst (request m ep b out st))) =
     (case b of CreateListingJson d \<Rightarrow> image_ids d | _ \<Rightarrow> [])"
  by (cases out; cases b)
    (auto simp add: request_def request_resumed_def clearToken_def showPage_login Let_def
      simp del: lit_simps)

lemma analyzeVintedCategory_images:
  "uploadedImages (snd (analyzeVintedCategory f out st)) = uploadedImages st"
proof -
  obtain es st1 res where
    r: "request POST CategoriesAnalyze
          (AnalyzeJson (trim (listing_title f)) (trim (listing_description f))) out st
        = (es, st1, res)"
    by (cases "request POST CategoriesAnalyze
          (AnalyzeJson (trim (listing_title f)) (trim (listing_description f))) out st")
  from request_images [of POST CategoriesAnalyze
      "AnalyzeJson (trim (listing_title f)) (trim (listing_description f))" out st] r
  have "uploadedImages st1 = uploadedImages st"
    by simp
  then show ?thesis
    by (simp add: analyzeVintedCategory_def analyzeCategory_def r Let_def
        split: sum.splits option.splits)
qed

lemma analyzeVintedCategory_sent:
  "concat (map sent_image_ids (fst (analyzeVintedCategory f out st))) = []"
proof -
  obtain es st1 res where
    r: "request POST CategoriesAnalyze
          (AnalyzeJson (trim (listing_title f)) (trim (listing_description f))) out st
        = (es, st1, res)"
    by (cases "request POST CategoriesAnalyze
          (AnalyzeJson (trim (listing_title f)) (trim (listing_description f))) out st")
  from request_sent [of POST CategoriesAnalyze
      "AnalyzeJson (trim (listing_title f)) (trim (listing_description f))" out st] r
  have "concat (map sent_image_ids es) = []"
    by simp
  then show ?thesis
    by (simp add: analyzeVintedCategory_def analyzeCategory_def r Let_def
        split: sum.splits option.splits)
qed

lemma publish_unless_scheduled_keeps:
  "(publish_unless_scheduled v created po st = Inl (e, st', err) \<longrightarrow>
      uploadedImages st' = uploadedImages st \<and> concat (map sent_image_ids e) = [])
   \<and> (publish_unless_scheduled v created po st = Inr (e, st') \<longrightarrow>
      uploadedImages st' = uploadedImages st \<and> concat (map sent_image_ids e) = [])"
proof (cases created)
  case None
  then show ?thesis
    by (auto simp add: publish_unless_scheduled_def)
next
  case (Some l)
  obtain es st1 res where
    r: "request POST (ListingPublish (listing_id l)) NoBody po st = (es, st1, res)"
    by (cases "request POST (ListingPublish (listing_id l)) NoBody po st")
  from request_images [of POST "ListingPublish (listing_id l)" NoBody po st]
    request_sent [of POST "ListingPublish (listing_id l)" NoBody po st] r
  have "uploadedImages st1 = uploadedImages st" "concat (map sent_image_ids es) = []"
    by simp_all
  with Some show ?thesis
    by (auto simp add: publish_unless_scheduled_def publishListing_def r showToast_def
        split: sum.splits)
qed

lemma handleCreateListing_images_sent:
  "set (uploadedImages (snd (handleCreateListing parse f co po st)))
     \<subseteq> set (uploadedImages st)
   \<and> set (concat (map sent_image_ids (fst (handleCreateListing parse f co po st))))
     \<subseteq> image_id ` set (uploadedImages st)"
proof (cases "with_schedule parse (listing_schedule f) (listing_data f st)")
  case (Inl err)
  then show ?thesis
    by (simp add: handleCreateListing_def)
next
  case (Inr d)
  from with_schedule_keeps [OF Inr]
  have ids: "image_ids d = map image_id (uploadedImages st)"
    by simp
  show ?thesis
  proof (cases "post_to_vinted d \<and> detectedCategory st = None")
    case True
    then show ?thesis
      by (simp add: handleCreateListing_def Inr showToast_def)
  next
    case False
    obtain e1 st1 res where
      c: "createListing d co st = (e1, st1, res)"
      by (cases "createListing d co st")
    from request_images [of POST Listings "CreateListingJson d" co st]
      request_sent [of POST Listings "CreateListingJson d" co st] c
    have k: "uploadedImages st1 = uploadedImages st" "concat (map sent_image_ids e1) = image_ids d"
      by (simp_all add: createListing_def)
    show ?thesis
    proof (cases res)
      case (Inl err)
      with k ids show ?thesis
        by (simp add: handleCreateListing_def \<open>with_schedule parse (listing_schedule f)
            (listing_data f st) = Inr d\<close> if_not_P [OF False] c showToast_def)
    next
      case created: (Inr created)
      show ?thesis
      proof (cases "publish_unless_scheduled (listing_schedule f) created po st1")
        case (Inl x)
        obtain e3 st2 err where x: "x = (e3, st2, err)"
          by (cases x)
        from publish_unless_scheduled_keeps [of "listing_schedule f" created po st1 e3 st2 err]
          Inl x
        have "uploadedImages st2 = uploadedImages st1" "concat (map sent_image_ids e3) = []"
          by simp_all
        with k ids show ?thesis
          by (simp add: handleCreateListing_def \<open>with_schedule parse (listing_schedule f)
              (listing_data f st) = Inr d\<close> if_not_P [OF False] c created Inl x showToast_def)
      next
        case (Inr y)
        obtain e3 st2 where y: "y = (e3, st2)"
          by (cases y)
        from publish_unless_scheduled_keeps [of "listing_schedule f" created po st1 e3 st2]
          Inr y
        have "concat (map sent_image_ids e3) = []"
          by simp
        with k ids show ?thesis
          by (simp add: handleCreateListing_def \<open>with_schedule parse (listing_schedule f)
              (listing_data f st) = Inr d\<close> if_not_P [OF False] c created Inr y showToast_def
              showPage_listings Let_def del: lit_simps)
      qed
    qed
  qed
qed

lemma handle_images_sent:
  "set (uploadedImages (snd (handle e st))) \<subseteq> set (uploadedImages st) \<union> set (answered e)
   \<and> set (concat (map sent_image_ids (fst (handle e st))))
     \<subseteq> image_id ` set (uploadedImages st)"
proof (cases e)
  case (ImageUpload files out)
  then show ?thesis
    by (simp add: handleImageUpload_answered handleImageUpload_sent)
next
  case (RemoveImage index)
  then show ?thesis
    by (auto simp add: removeImage_def dest: in_set_takeD in_set_dropD)
next
  case (CategoryAnalysis f out)
  then show ?thesis
    by (simp add: analyzeVintedCategory_images analyzeVintedCategory_sent)
next
  case (CreateListingSubmit parse f co po)
  with handleCreateListing_images_sent [of parse f co po st] show ?thesis
    by auto
next
  case (ListingsAnswer out)
  with loadListings_resumed_images_sent [of out st] show ?thesis
    by simp
next
  case (DashboardAnswer out)
  with loadDashboard_resumed_images_sent [of out st] show ?thesis
    by simp
qed

lemma run_images_sent:
  "set (uploadedImages (snd (run evs st)))
     \<subseteq> set (uploadedImages st) \<union> set (concat (map answered evs))
   \<and> set (concat (map sent_image_ids (fst (run evs st))))
     \<subseteq> image_id ` (set (uploadedImages st) \<union> set (concat (map answered evs)))"
proof (induction evs arbitrary: st)
  case Nil
  then show ?case by simp
next
  case (Cons e evs)
  obtain x st1 where h: "handle e st = (x, st1)"
    by (cases "handle e st")
  obtain y st2 where r: "run evs st1 = (y, st2)"
    by (cases "run evs st1")
  from handle_images_sent [of e st] h
  have a: "set (uploadedImages st1) \<subseteq> set (uploadedImages st) \<union> set (answered e)"
    "set (concat (map sent_image_ids x)) \<subseteq> image_id ` set (uploadedImages st)"
    by simp_all
  from Cons.IH [of st1] r
  have b: "set (uploadedImages st2)
      \<subseteq> set (uploadedImages st1) \<union> set (concat (map answered evs))"
    "set (concat (map sent_image_ids y))
      \<subseteq> image_id ` (set (uploadedImages st1) \<union> set (concat (map answered evs)))"
    by simp_all
  have "set (uploadedImages st2)
      \<subseteq> set (uploadedImages st) \<union> set (concat (map answered (e # evs)))"
    using a(1) b(1) by auto
  moreover have "set (concat (map sent_image_ids (x @ y)))
      \<subseteq> image_id ` (set (uploadedImages st) \<union> set (concat (map answered (e # evs))))"
  proof -
    have m: "image_id ` (set (uploadedImages st1) \<union> set (concat (map answered evs)))
        \<subseteq> image_id ` (set (uploadedImages st) \<union> set (concat (map answered (e # evs))))"
      by (rule image_mono) (use a(1) in auto)
    have n: "image_id ` set (uploadedImages st)
        \<subseteq> image_id ` (set (uploadedImages st) \<union> set (concat (map answered (e # evs))))"
      by (rule image_mono) simp
    have "set (concat (map sent_image_ids (x @ y)))
        = set (concat (map sent_image_ids x)) \<union> set (concat (map sent_image_ids y))"
      by simp
    with a(2) b(2) m n show ?thesis
      by blast
  qed
  ultimately show ?case
    by (simp add: h r)
qed

text \<open>
  C10. \<open>handleImageUpload\<close> keeps the files whose type is one of image/jpeg,
  image/png, image/webp and image/gif: when none is left it only shows an error
  toast, and otherwise its single request carries exactly the files kept. What it
  appends to \<open>uploadedImages\<close> is the answer to that request. Hence, from the initial
  state and through any sequence of uploads, removals, category analyses and
  submissions, every element of \<open>uploadedImages\<close>, and every id sent in the
  \<open>image_ids\<close> of a create request, comes from the answer to an upload of files of
  these types.
\<close>

theorem uploaded_images_validated:
  "(filter (\<lambda>f. file_type f \<in> set valid_image_types) files = [] \<longrightarrow>
      handleImageUpload files out st = ([Toast (Text no_valid_file) ToastError], st))
   \<and> (filter (\<lambda>f. file_type f \<in> set valid_image_types) files \<noteq> [] \<longrightarrow>
      (\<exists>rest. fst (handleImageUpload files out st) =
         Fetch POST UploadsImages
           (Some (lit ''Bearer '' @ (case token st of None \<Rightarrow> lit ''null'' | Some t \<Rightarrow> t)))
           (FormData (filter (\<lambda>f. file_type f \<in> set valid_image_types) files)) # rest
         \<and> \<not> list_ex is_fetch rest))
   \<and> (\<forall>f \<in> set (filter (\<lambda>f. file_type f \<in> set valid_image_types) files).
        file_type f \<in> {lit ''image/jpeg'', lit ''image/png'', lit ''image/webp'',
                        lit ''image/gif''})
   \<and> uploadedImages (snd (handleImageUpload files out st))
        = uploadedImages st @ answered (ImageUpload files out)
   \<and> set (uploadedImages (snd (run evs (initial_state stored))))
        \<subseteq> set (concat (map answered evs))
   \<and> set (concat (map sent_image_ids (fst (run evs (initial_state stored)))))
        \<subseteq> image_id ` set (concat (map answered evs))"
proof (intro conjI impI)
  assume "filter (\<lambda>f. file_type f \<in> set valid_image_types) files = []"
  then show "handleImageUpload files out st = ([Toast (Text no_valid_file) ToastError], st)"
    by (simp add: handleImageUpload_def showToast_def)
next
  assume "filter (\<lambda>f. file_type f \<in> set valid_image_types) files \<noteq> []"
  then show "\<exists>rest. fst (handleImageUpload files out st) =
         Fetch POST UploadsImages
           (Some (lit ''Bearer '' @ (case token st of None \<Rightarrow> lit ''null'' | Some t \<Rightarrow> t)))
           (FormData (filter (\<lambda>f. file_type f \<in> set valid_image_types) files)) # rest
         \<and> \<not> list_ex is_fetch rest"
    by (rule handleImageUpload_request)
next
  show "\<forall>f \<in> set (filter (\<lambda>f. file_type f \<in> set valid_image_types) files).
        file_type f \<in> {lit ''image/jpeg'', lit ''image/png'', lit ''image/webp'',
                        lit ''image/gif''}"
    by (simp add: valid_image_types_def del: lit_simps)
next
  show "uploadedImages (snd (handleImageUpload files out st))
        = uploadedImages st @ answered (ImageUpload files out)"
    by (rule handleImageUpload_answered)
next
  from run_images_sent [of evs "initial_state stored"]
  show "set (uploadedImages (snd (run evs (initial_state stored))))
        \<subseteq> set (concat (map answered evs))"
    by (simp add: initial_state_def del: lit_simps)
next
  from run_images_sent [of evs "initial_state stored"]
  show "set (concat (map sent_image_ids (fst (run evs (initial_state stored)))))
        \<subseteq> image_id ` set (concat (map answered evs))"
    by (simp add: initial_state_def del: lit_simps)
qed

theorem uploaded_images_validated_witness:
  "filter (\<lambda>f. file_type f \<in> set valid_image_types) [document] = [] \<and>
   handleImageUpload [document] Rejected sample_state =
     ([Toast (Text no_valid_file) ToastError], sample_state) \<and>
   filter (\<lambda>f. file_type f \<in> set valid_image_types) [photo, document] = [photo] \<and>
   (\<exists>rest. fst (handleImageUpload [photo, document] (Resolved upload_response) sample_state) =
      Fetch POST UploadsImages (Some (lit ''Bearer tok'')) (FormData [photo]) # rest
      \<and> \<not> list_ex is_fetch rest) \<and>
   file_type photo \<in> {lit ''image/jpeg'', lit ''image/png'', lit ''image/webp'',
                       lit ''image/gif''} \<and>
   uploadedImages (snd (handleImageUpload [photo, document] (Resolved upload_response)
                          sample_state)) =
     [\<lparr>image_id = 7, image_url = lit ''/img/7''\<rparr>]"
proof -
  have p: "file_type photo \<in> set valid_image_types"
    by (simp add: photo_def valid_image_types_def del: lit_simps)
  have d: "file_type document \<notin> set valid_image_types"
    by (simp add: document_def valid_image_types_def lit_eq_iff del: lit_simps)
  have none: "filter (\<lambda>f. file_type f \<in> set valid_image_types) [document] = []"
    using d by simp
  have one: "filter (\<lambda>f. file_type f \<in> set valid_image_types) [photo, document] = [photo]"
    using p d by simp
  have tok: "lit ''Bearer '' @ (case token sample_state of None \<Rightarrow> lit ''null'' | Some t \<Rightarrow> t)
      = lit ''Bearer tok''"
    by (simp add: sample_state_def)
  have ans: "uploadedImages sample_state
        @ answered (ImageUpload [photo, document] (Resolved upload_response))
      = [\<lparr>image_id = 7, image_url = lit ''/img/7''\<rparr>]"
    using p d by (simp add: sample_state_def upload_response_def ok_def del: lit_simps)
  note empty = uploaded_images_validated [of "[document]" Rejected sample_state "[]" None]
  note full = uploaded_images_validated
    [of "[photo, document]" "Resolved upload_response" sample_state "[]" None]
  from empty none have a: "handleImageUpload [document] Rejected sample_state =
     ([Toast (Text no_valid_file) ToastError], sample_state)"
    by blast
  from full one have b: "\<exists>rest.
      fst (handleImageUpload [photo, document] (Resolved upload_response) sample_state) =
        Fetch POST UploadsImages
          (Some (lit ''Bearer ''
                 @ (case token sample_state of None \<Rightarrow> lit ''null'' | Some t \<Rightarrow> t)))
          (FormData [photo]) # rest
      \<and> \<not> list_ex is_fetch rest"
    by (simp del: lit_simps)
  from full have c: "uploadedImages (snd (handleImageUpload [photo, document]
        (Resolved upload_response) sample_state)) =
      uploadedImages sample_state
        @ answered (ImageUpload [photo, document] (Resolved upload_response))"
    by blast
  from full have q: "\<forall>f \<in> set (filter (\<lambda>f. file_type f \<in> set valid_image_types)
        [photo, document]).
      file_type f \<in> {lit ''image/jpeg'', lit ''image/png'', lit ''image/webp'',
                      lit ''image/gif''}"
    by blast
  have e: "file_type photo \<in> {lit ''image/jpeg'', lit ''image/png'',
      lit ''image/webp'', lit ''image/gif''}"
    using q unfolding one by (simp del: lit_simps)
  from none a one b e c show ?thesis
    by (simp only: tok ans)
qed

section \<open>Images of a new listing\<close>

lemma subseq_tl: "subseq (tl ys) ys"
proof (cases ys)
  case Nil
  then show ?thesis by simp
next
  case (Cons y zs)
  have "subseq zs ([y] @ zs)"
    by (rule list_emb_append2) (rule subseq_order.order_refl)
  with Cons show ?thesis by simp
qed

lemma subseq_remove_nth: "subseq (take i xs @ drop (Suc i) xs) xs"
proof -
  have "drop (Suc i) xs = tl (drop i xs)"
    by (simp add: drop_Suc tl_drop)
  then have d: "subseq (drop (Suc i) xs) (drop i xs)"
    by (simp only: subseq_tl)
  have "subseq (take i xs @ drop (Suc i) xs) (take i xs @ drop i xs)"
    by (simp only: subseq_append' d)
  then show ?thesis
    by (simp only: append_take_drop_id)
qed

lemma handleCreateListing_images:
  "uploadedImages (snd (handleCreateListing parse f co po st)) = uploadedImages st
   \<or> uploadedImages (snd (handleCreateListing parse f co po st)) = []"
proof (cases "with_schedule parse (listing_schedule f) (listing_data f st)")
  case (Inl err)
  then show ?thesis
    by (simp add: handleCreateListing_def)
next
  case (Inr d)
  show ?thesis
  proof (cases "post_to_vinted d \<and> detectedCategory st = None")
    case True
    then show ?thesis
      by (simp add: handleCreateListing_def Inr showToast_def)
  next
    case False
    obtain e1 st1 res where
      c: "createListing d co st = (e1, st1, res)"
      by (cases "createListing d co st")
    from request_images [of POST Listings "CreateListingJson d" co st] c
    have k: "uploadedImages st1 = uploadedImages st"
      by (simp add: createListing_def)
    show ?thesis
    proof (cases res)
      case (Inl err)
      with k show ?thesis
        by (simp add: handleCreateListing_def \<open>with_schedule parse (listing_schedule f)
            (listing_data f st) = Inr d\<close> if_not_P [OF False] c showToast_def)
    next
      case created: (Inr created)
      show ?thesis
      proof (cases "publish_unless_scheduled (listing_schedule f) created po st1")
        case (Inl x)
        obtain e3 st2 err where x: "x = (e3, st2, err)"
          by (cases x)
        from publish_unless_scheduled_keeps [of "listing_schedule f" created po st1 e3 st2 err]
          Inl x
        have "uploadedImages st2 = uploadedImages st1"
          by simp
        with k show ?thesis
          by (simp add: handleCreateListing_def \<open>with_schedule parse (listing_schedule f)
              (listing_data f st) = Inr d\<close> if_not_P [OF False] c created Inl x showToast_def)
      next
        case (Inr y)
        obtain e3 st2 where y: "y = (e3, st2)"
          by (cases y)
        show ?thesis
          by (simp add: handleCreateListing_def \<open>with_schedule parse (listing_schedule f)
              (listing_data f st) = Inr d\<close> if_not_P [OF False] c created Inr y showToast_def
              showPage_listings Let_def del: lit_simps)
      qed
    qed
  qed
qed

lemma handle_subseq:
  "subseq (uploadedImages (snd (handle e st))) (uploadedImages st @ answered e)"
proof (cases e)
  case (ImageUpload files out)
  then show ?thesis
    by (simp add: handleImageUpload_answered)
next
  case (RemoveImage index)
  then show ?thesis
    by (simp add: removeImage_def subseq_remove_nth)
next
  case (CategoryAnalysis f out)
  then show ?thesis
    by (simp add: analyzeVintedCategory_images)
next
  case (CreateListingSubmit parse f co po)
  with handleCreateListing_images [of parse f co po st] show ?thesis
    by auto
next
  case (ListingsAnswer out)
  with loadListings_resumed_images_sent [of out st] show ?thesis
    by simp
next
  case (DashboardAnswer out)
  with loadDashboard_resumed_images_sent [of out st] show ?thesis
    by simp
qed

lemma run_subseq:
  "subseq (uploadedImages (snd (run evs st))) (uploadedImages st @ concat (map answered evs))"
proof (induction evs arbitrary: st)
  case Nil
  then show ?case by simp
next
  case (Cons e evs)
  obtain x st1 where h: "handle e st = (x, st1)"
    by (cases "handle e st")
  obtain y st2 where r: "run evs st1 = (y, st2)"
    by (cases "run evs st1")
  from handle_subseq [of e st] h
  have a: "subseq (uploadedImages st1) (uploadedImages st @ answered e)"
    by simp
  from Cons.IH [of st1] r
  have b: "subseq (uploadedImages st2) (uploadedImages st1 @ concat (map answered evs))"
    by simp
  from a have "subseq (uploadedImages st1 @ concat (map answered evs))
      ((uploadedImages st @ answered e) @ concat (map answered evs))"
    by (rule list_emb_append_mono) (rule subseq_order.order_refl)
  with b have "subseq (uploadedImages st2)
      ((uploadedImages st @ answered e) @ concat (map answered evs))"
    by (rule subseq_order.order_trans)
  then show ?case
    by (simp add: h r)
qed

text \<open>
  C7. Nothing requires an image. When the schedule field is empty or parseable and
  the category guard does not stop the submission, \<open>handleCreateListing\<close> sends the
  create request, and its \<open>image_ids\<close> are the ids of \<open>uploadedImages\<close> in the order
  of that list: the empty list when no image was uploaded. That list is in upload
  order: \<open>handleImageUpload\<close> appends the answer of the server to an upload, in the
  order of the answer, at its end; \<open>removeImage\<close> takes one element out and keeps the
  others in place; so after any sequence of events from the initial state,
  \<open>uploadedImages\<close>, and with it the \<open>image_ids\<close> sent, is a subsequence of the
  answers to the uploads in the order they were made.
\<close>

theorem create_sends_image_ids:
  assumes "listing_schedule f = [] \<or> parse (listing_schedule f) \<noteq> None"
    and "\<not> (post_vinted f \<and> detectedCategory st = None)"
  shows "(\<exists>d rest.
           fst (handleCreateListing parse f co po st) =
             PreventDefault # Fetch POST Listings (authorization st) (CreateListingJson d) # rest
           \<and> image_ids d = map image_id (uploadedImages st)
           \<and> (uploadedImages st = [] \<longrightarrow> image_ids d = [])
           \<and> (st = snd (run evs (initial_state stored)) \<longrightarrow>
                subseq (image_ids d) (map image_id (concat (map answered evs)))))
    \<and> uploadedImages (snd (handleImageUpload files out st))
         = uploadedImages st @ answered (ImageUpload files out)
    \<and> (filter (\<lambda>f. file_type f \<in> set valid_image_types) files \<noteq> [] \<and> ok r
          \<and> json r = Some (Object dd imgs) \<longrightarrow>
         uploadedImages (snd (handleImageUpload files (Resolved r) st))
           = uploadedImages st @ imgs)
    \<and> uploadedImages (snd (removeImage i st))
         = take i (uploadedImages st) @ drop (Suc i) (uploadedImages st)
    \<and> subseq (uploadedImages (snd (removeImage i st))) (uploadedImages st)
    \<and> subseq (uploadedImages (snd (run evs (initial_state stored))))
         (concat (map answered evs))"
proof (intro conjI)
  from with_schedule_valid [of f parse "listing_data f st", OF assms(1)] obtain d where
    d: "with_schedule parse (listing_schedule f) (listing_data f st) = Inr d"
    by blast
  from with_schedule_keeps [OF d] have ids: "image_ids d = map image_id (uploadedImages st)"
    by simp
  from handleCreateListing_sends [OF d assms(2)] obtain rest where
    sent: "fst (handleCreateListing parse f co po st) =
       PreventDefault # Fetch POST Listings (authorization st) (CreateListingJson d) # rest"
    by blast
  have order: "subseq (image_ids d) (map image_id (concat (map answered evs)))"
    if "st = snd (run evs (initial_state stored))"
  proof -
    from run_subseq [of evs "initial_state stored"] that
    have "subseq (uploadedImages st) (concat (map answered evs))"
      by (simp add: initial_state_def del: lit_simps)
    then show ?thesis
      unfolding ids by (rule subseq_map)
  qed
  from sent ids order show "\<exists>d rest.
           fst (handleCreateListing parse f co po st) =
             PreventDefault # Fetch POST Listings (authorization st) (CreateListingJson d) # rest
           \<and> image_ids d = map image_id (uploadedImages st)
           \<and> (uploadedImages st = [] \<longrightarrow> image_ids d = [])
           \<and> (st = snd (run evs (initial_state stored)) \<longrightarrow>
                subseq (image_ids d) (map image_id (concat (map answered evs))))"
    by auto
next
  show "uploadedImages (snd (handleImageUpload files out st))
         = uploadedImages st @ answered (ImageUpload files out)"
    by (rule handleImageUpload_answered)
next
  show "filter (\<lambda>f. file_type f \<in> set valid_image_types) files \<noteq> [] \<and> ok r
          \<and> json r = Some (Object dd imgs) \<longrightarrow>
         uploadedImages (snd (handleImageUpload files (Resolved r) st))
           = uploadedImages st @ imgs"
    by (simp add: handleImageUpload_answered)
next
  show "uploadedImages (snd (removeImage i st))
         = take i (uploadedImages st) @ drop (Suc i) (uploadedImages st)"
    by (simp add: removeImage_def)
next
  show "subseq (uploadedImages (snd (removeImage i st))) (uploadedImages st)"
    by (simp add: removeImage_def subseq_remove_nth)
next
  from run_subseq [of evs "initial_state stored"]
  show "subseq (uploadedImages (snd (run evs (initial_state stored))))
         (concat (map answered evs))"
    by (simp add: initial_state_def del: lit_simps)
qed

theorem create_sends_image_ids_witness:
  "(listing_schedule sample_form = [] \<or> sample_parse (listing_schedule sample_form) \<noteq> None) \<and>
   \<not> (post_vinted sample_form \<and> detectedCategory stale_state = None) \<and>
   uploadedImages stale_state = [] \<and>
   (\<exists>d rest.
      fst (handleCreateListing sample_parse sample_form Rejected Rejected stale_state) =
        PreventDefault # Fetch POST Listings (authorization stale_state) (CreateListingJson d)
          # rest
      \<and> image_ids d = []) \<and>
   (\<exists>d rest.
      fst (handleCreateListing sample_parse sample_form Rejected Rejected two_images_state) =
        PreventDefault
          # Fetch POST Listings (authorization two_images_state) (CreateListingJson d) # rest
      \<and> image_ids d = [5, 3]) \<and>
   map image_id (uploadedImages (snd (handleImageUpload [photo, document]
                                        (Resolved upload_response) two_images_state)))
     = [5, 3, 7] \<and>
   map image_id (uploadedImages (snd (removeImage 0 two_images_state))) = [3]"
proof -
  have h: "listing_schedule sample_form = []" "detectedCategory stale_state \<noteq> None"
    "uploadedImages stale_state = []" "detectedCategory two_images_state \<noteq> None"
    "map image_id (uploadedImages two_images_state) = [5, 3]"
    by (simp_all add: sample_form_def stale_state_def sample_state_def two_images_state_def)
  have p: "file_type photo \<in> set valid_image_types"
    by (simp add: photo_def valid_image_types_def del: lit_simps)
  have ans: "answered (ImageUpload [photo, document] (Resolved upload_response))
      = [\<lparr>image_id = 7, image_url = lit ''/img/7''\<rparr>]"
    using p by (simp add: upload_response_def ok_def del: lit_simps)
  note none = create_sends_image_ids
    [of sample_form sample_parse stale_state Rejected Rejected "[]" None "[]" Rejected
        upload_response None "[]" 0]
  note two = create_sends_image_ids
    [of sample_form sample_parse two_images_state Rejected Rejected "[]" None
        "[photo, document]" "Resolved upload_response" upload_response None "[]" 0]
  from none h obtain d rest where
    "fst (handleCreateListing sample_parse sample_form Rejected Rejected stale_state) =
       PreventDefault # Fetch POST Listings (authorization stale_state) (CreateListingJson d)
         # rest"
    "image_ids d = map image_id (uploadedImages stale_state)"
    by blast
  with h have a: "\<exists>d rest.
      fst (handleCreateListing sample_parse sample_form Rejected Rejected stale_state) =
        PreventDefault # Fetch POST Listings (authorization stale_state) (CreateListingJson d)
          # rest
      \<and> image_ids d = []"
    by simp
  from two h obtain d' rest' where
    "fst (handleCreateListing sample_parse sample_form Rejected Rejected two_images_state) =
       PreventDefault
         # Fetch POST Listings (authorization two_images_state) (CreateListingJson d') # rest'"
    "image_ids d' = map image_id (uploadedImages two_images_state)"
    by blast
  with h have b: "\<exists>d rest.
      fst (handleCreateListing sample_parse sample_form Rejected Rejected two_images_state) =
        PreventDefault
          # Fetch POST Listings (authorization two_images_state) (CreateListingJson d) # rest
      \<and> image_ids d = [5, 3]"
    by simp
  from two h have u: "uploadedImages (snd (handleImageUpload [photo, document]
        (Resolved upload_response) two_images_state))
      = uploadedImages two_images_state
        @ answered (ImageUpload [photo, document] (Resolved upload_response))"
    by blast
  have c: "map image_id (uploadedImages (snd (handleImageUpload [photo, document]
        (Resolved upload_response) two_images_state))) = [5, 3, 7]"
    unfolding u ans using h(5) by (simp del: lit_simps)
  from two h have v: "uploadedImages (snd (removeImage 0 two_images_state))
      = take 0 (uploadedImages two_images_state) @ drop (Suc 0) (uploadedImages two_images_state)"
    by blast
  have "map image_id (drop (Suc 0) (uploadedImages two_images_state)) = drop (Suc 0) [5, 3]"
    unfolding drop_map h(5) [symmetric] by (rule refl)
  then have e: "map image_id (uploadedImages (snd (removeImage 0 two_images_state))) = [3]"
    unfolding v by simp
  from h a b c e show ?thesis
    by (intro conjI) simp_all
qed

section \<open>Debouncing of the category analysis\<close>

lemma input_event_idle:
  assumes "pending s = []"
  shows "pending (input_event t s) = [(next_id s, t + 500)]
    \<and> categoryDebounceTimer (input_event t s) = Some (next_id s)
    \<and> analyses (input_event t s) = analyses s"
  using assms
  by (simp add: input_event_def triggerCategoryAnalysis_def clearTimeout_def setTimeout_def
      run_timers_def Let_def)

lemma input_event_rearms:
  assumes "pending s = [(h, due)]" and "categoryDebounceTimer s = Some h" and "t < due"
  shows "pending (input_event t s) = [(next_id s, t + 500)]
    \<and> categoryDebounceTimer (input_event t s) = Some (next_id s)
    \<and> analyses (input_event t s) = analyses s"
  using assms
  by (simp add: input_event_def triggerCategoryAnalysis_def clearTimeout_def setTimeout_def
      run_timers_def Let_def)

lemma burst_rearms:
  assumes "pending s = [(h, due)]" and "categoryDebounceTimer s = Some h"
    and "ts \<noteq> []" and "hd ts < due"
    and "\<forall>i. Suc i < length ts \<longrightarrow> ts ! i \<le> ts ! Suc i \<and> ts ! Suc i < ts ! i + 500"
  shows "(\<exists>h'. pending (input_events ts s) = [(h', last ts + 500)]
            \<and> categoryDebounceTimer (input_events ts s) = Some h')
    \<and> analyses (input_events ts s) = analyses s"
  using assms
proof (induction ts arbitrary: s h due)
  case Nil
  then show ?case by simp
next
  case (Cons t ts)
  from Cons.prems(4) have "t < due"
    by simp
  from input_event_rearms [OF Cons.prems(1,2) this]
  have s1: "pending (input_event t s) = [(next_id s, t + 500)]"
    "categoryDebounceTimer (input_event t s) = Some (next_id s)"
    "analyses (input_event t s) = analyses s"
    by simp_all
  show ?case
  proof (cases ts)
    case Nil
    with s1 show ?thesis by simp
  next
    case tail: (Cons u us)
    from Cons.prems(5) [rule_format, of 0] tail
    have "u < t + 500"
      by simp
    then have hd: "hd ts < t + 500"
      using tail by simp
    have gaps: "\<forall>i. Suc i < length ts \<longrightarrow> ts ! i \<le> ts ! Suc i \<and> ts ! Suc i < ts ! i + 500"
    proof (intro allI impI)
      fix i
      assume "Suc i < length ts"
      with Cons.prems(5) [rule_format, of "Suc i"]
      show "ts ! i \<le> ts ! Suc i \<and> ts ! Suc i < ts ! i + 500"
        by simp
    qed
    have ne: "ts \<noteq> []"
      using tail by simp
    from Cons.IH [OF s1(1,2) ne hd gaps] s1(3) ne show ?thesis
      by simp
  qed
qed

lemma burst_single:
  assumes "ts \<noteq> []"
    and "\<forall>i. Suc i < length ts \<longrightarrow> ts ! i \<le> ts ! Suc i \<and> ts ! Suc i < ts ! i + 500"
    and "pending s = []"
  shows "(\<exists>h. pending (input_events ts s) = [(h, last ts + 500)]
            \<and> categoryDebounceTimer (input_events ts s) = Some h)
    \<and> analyses (input_events ts s) = analyses s"
proof (cases ts)
  case Nil
  with assms(1) show ?thesis by simp
next
  case (Cons t us)
  from input_event_idle [OF assms(3), of t]
  have s1: "pending (input_event t s) = [(next_id s, t + 500)]"
    "categoryDebounceTimer (input_event t s) = Some (next_id s)"
    "analyses (input_event t s) = analyses s"
    by simp_all
  show ?thesis
  proof (cases us)
    case Nil
    with Cons s1 show ?thesis by simp
  next
    case tail: (Cons u vs)
    from assms(2) [rule_format, of 0] Cons tail
    have hd: "hd us < t + 500"
      by simp
    have gaps: "\<forall>i. Suc i < length us \<longrightarrow> us ! i \<le> us ! Suc i \<and> us ! Suc i < us ! i + 500"
    proof (intro allI impI)
      fix i
      assume "Suc i < length us"
      with assms(2) [rule_format, of "Suc i"] Cons
      show "us ! i \<le> us ! Suc i \<and> us ! Suc i < us ! i + 500"
        by simp
    qed
    have ne: "us \<noteq> []"
      using tail by simp
    from burst_rearms [OF s1(1,2) ne hd gaps] s1(3) Cons ne show ?thesis
      by simp
  qed
qed

text \<open>
  C5. Take a burst of input events on the title or description field, starting with
  no timer pending, in which each event comes less than 500 ms after the one before.
  After every event of the burst exactly one timer is pending, the one the closure
  variable holds, and no analysis has run: each event has cleared the timer of the
  one before. After the last event the pending timer is due 500 ms later, so the
  burst leads to one call of \<open>analyzeVintedCategory\<close>, made 500 ms after its last
  event. Times are those of the millisecond clock of the timer model, in which a
  timer runs at its due time.
\<close>

theorem debounce_coalesces:
  assumes "ts \<noteq> []"
    and "\<forall>i. Suc i < length ts \<longrightarrow> ts ! i \<le> ts ! Suc i \<and> ts ! Suc i < ts ! i + 500"
    and "pending s = []"
  shows "(\<forall>k. 0 < k \<and> k \<le> length ts \<longrightarrow>
            length (pending (input_events (take k ts) s)) = 1
            \<and> map (Some \<circ> fst) (pending (input_events (take k ts) s))
                = [categoryDebounceTimer (input_events (take k ts) s)]
            \<and> analyses (input_events (take k ts) s) = analyses s)
    \<and> map snd (pending (input_events ts s)) = [last ts + 500]
    \<and> (\<forall>now. analyses (run_timers now (input_events ts s)) =
            (if last ts + 500 \<le> now then analyses s @ [last ts + 500] else analyses s))"
proof (intro conjI allI impI)
  fix k
  assume k: "0 < k \<and> k \<le> length ts"
  then have ne: "take k ts \<noteq> []"
    using assms(1) by simp
  have gaps: "\<forall>i. Suc i < length (take k ts) \<longrightarrow>
      take k ts ! i \<le> take k ts ! Suc i \<and> take k ts ! Suc i < take k ts ! i + 500"
  proof (intro allI impI)
    fix i
    assume "Suc i < length (take k ts)"
    with assms(2) [rule_format, of i]
    show "take k ts ! i \<le> take k ts ! Suc i \<and> take k ts ! Suc i < take k ts ! i + 500"
      by simp
  qed
  from burst_single [OF ne gaps assms(3)] obtain h where
    h: "pending (input_events (take k ts) s) = [(h, last (take k ts) + 500)]"
    "categoryDebounceTimer (input_events (take k ts) s) = Some h"
    "analyses (input_events (take k ts) s) = analyses s"
    by blast
  from h show "length (pending (input_events (take k ts) s)) = 1"
    by simp
  from h show "map (Some \<circ> fst) (pending (input_events (take k ts) s))
                = [categoryDebounceTimer (input_events (take k ts) s)]"
    by simp
  from h show "analyses (input_events (take k ts) s) = analyses s"
    by simp
next
  from burst_single [OF assms] show "map snd (pending (input_events ts s)) = [last ts + 500]"
    by auto
next
  fix now
  from burst_single [OF assms] obtain h where
    "pending (input_events ts s) = [(h, last ts + 500)]"
    "analyses (input_events ts s) = analyses s"
    by blast
  then show "analyses (run_timers now (input_events ts s)) =
            (if last ts + 500 \<le> now then analyses s @ [last ts + 500] else analyses s)"
    by (simp add: run_timers_def)
qed

theorem debounce_coalesces_witness:
  "[0, 100, 450, 900] \<noteq> ([] :: nat list) \<and>
   pending idle = [] \<and>
   map snd (pending (input_events [0, 100, 450, 900] idle)) = [1400] \<and>
   analyses (run_timers 1399 (input_events [0, 100, 450, 900] idle)) = [] \<and>
   analyses (run_timers 1400 (input_events [0, 100, 450, 900] idle)) = [1400]"
proof -
  have gaps: "\<forall>i. Suc i < length [0, 100, 450, 900 :: nat] \<longrightarrow>
      [0, 100, 450, 900 :: nat] ! i \<le> [0, 100, 450, 900] ! Suc i
      \<and> [0, 100, 450, 900 :: nat] ! Suc i < [0, 100, 450, 900] ! i + 500"
  proof (intro allI impI)
    fix i :: nat
    assume "Suc i < length [0, 100, 450, 900 :: nat]"
    then have "i = 0 \<or> i = 1 \<or> i = 2"
      by auto
    then show "[0, 100, 450, 900 :: nat] ! i \<le> [0, 100, 450, 900] ! Suc i
      \<and> [0, 100, 450, 900 :: nat] ! Suc i < [0, 100, 450, 900] ! i + 500"
      by (elim disjE) simp_all
  qed
  have ne: "[0, 100, 450, 900] \<noteq> ([] :: nat list)"
    by simp
  have quiet: "pending idle = []" "analyses idle = []"
    by (simp_all add: idle_def)
  note burst = debounce_coalesces [OF ne gaps quiet(1)]
  from burst have a: "map snd (pending (input_events [0, 100, 450, 900] idle)) = [1400]"
    by simp
  from burst have "\<forall>now. analyses (run_timers now (input_events [0, 100, 450, 900] idle)) =
      (if last [0, 100, 450, 900] + 500 \<le> now
       then analyses idle @ [last [0, 100, 450, 900] + 500] else analyses idle)"
    by blast
  then have b: "analyses (run_timers 1399 (input_events [0, 100, 450, 900] idle)) = []"
    "analyses (run_timers 1400 (input_events [0, 100, 450, 900] idle)) = [1400]"
    by (simp_all add: quiet)
  from ne quiet(1) a b show ?thesis
    by (intro conjI)
qed

end
